theory Spec2Isabelle
  imports Complex_Main
begin

section \<open>Data model of the go-kart simulation (RaceTrack.tsx, component GoCart)\<close>

text \<open>
  The embedding follows the second variant of \<^verbatim>\<open>RaceTrack.tsx\<close> (the one with lap, wall-hit
  and cart-hit counters); the first variant has the same functions without the counters.

  JavaScript numbers are modelled as exact reals: \<^verbatim>\<open>Infinity\<close> is the value \<open>None\<close> of
  \<open>real option\<close>, and no NaN arises. React state (\<^verbatim>\<open>useState\<close>) is modelled by explicit
  state passing: a function reads the state of the render it was created in (its argument)
  and returns that state with the setters applied in program order. Each call of the model
  sees the state left by the previous one.
\<close>

record Vector3 =
  vec_x :: real
  vec_y :: real
  vec_z :: real

record Keys =
  forward :: bool
  backward :: bool
  left :: bool
  right :: bool

datatype AiStyle = Aggressive | Normal | Cautious

datatype error = TypeError

text \<open>
  The props of one \<^verbatim>\<open>GoCart\<close>. \<open>onCartCollision\<close> says whether the optional callback prop
  is supplied, \<open>groupRefCurrent\<close> whether \<^verbatim>\<open>groupRef.current\<close> is non-null (the group is
  mounted).
\<close>

record props =
  trackPoints :: "Vector3 list"
  isPlayer :: bool
  aiStyle :: AiStyle
  cartId :: string
  startPosition :: Vector3
  onCartCollision :: bool
  groupRefCurrent :: bool

text \<open>The \<^verbatim>\<open>useState\<close> cells of one cart.\<close>

record cart =
  position :: Vector3
  rotation :: real
  velocity :: real
  angularVelocity :: real
  currentTrackIndex :: nat
  isPaused :: bool
  pauseTimeLeft :: real
  hitPoints :: int
  isStunned :: bool
  stunTimeLeft :: real
  laps :: nat
  wallHits :: nat
  cartHits :: nat
  lastCheckpoint :: int

text \<open>
  \<^verbatim>\<open>allCartPositions: Map<string, THREE.Vector3>\<close>. A JavaScript Map iterates in insertion
  order, so it is an association list; \<^verbatim>\<open>set\<close> replaces the value of a key that is present
  where it stands and appends a new key.
\<close>

type_synonym positions = "(string \<times> Vector3) list"

fun mapSet :: "string \<Rightarrow> Vector3 \<Rightarrow> positions \<Rightarrow> positions" where
  "mapSet k v [] = [(k, v)]"
| "mapSet k v ((k', v') # rest) =
     (if k' = k then (k, v) # rest else (k', v') # mapSet k v rest)"

section \<open>Library functions used by the component\<close>

text \<open>
  \<^verbatim>\<open>Math.atan2(y, x)\<close> on reals: the angle of the point \<open>(x, y)\<close> in \<open>[-\<pi>, \<pi>]\<close>, and 0 at the
  origin.
\<close>

definition atan2 :: "real \<Rightarrow> real \<Rightarrow> real" where
  "atan2 y x =
     (if 0 < x then arctan (y / x)
      else if x < 0 then (if 0 \<le> y then arctan (y / x) + pi else arctan (y / x) - pi)
      else if 0 < y then pi / 2
      else if y < 0 then - (pi / 2)
      else 0)"

text \<open>The methods of \<^verbatim>\<open>THREE.Vector3\<close> that the component calls.\<close>

definition subVectors :: "Vector3 \<Rightarrow> Vector3 \<Rightarrow> Vector3" where
  "subVectors a b =
     \<lparr>vec_x = vec_x a - vec_x b, vec_y = vec_y a - vec_y b, vec_z = vec_z a - vec_z b\<rparr>"

definition addVector :: "Vector3 \<Rightarrow> Vector3 \<Rightarrow> Vector3" where
  "addVector a b =
     \<lparr>vec_x = vec_x a + vec_x b, vec_y = vec_y a + vec_y b, vec_z = vec_z a + vec_z b\<rparr>"

definition multiplyScalar :: "Vector3 \<Rightarrow> real \<Rightarrow> Vector3" where
  "multiplyScalar v s = \<lparr>vec_x = vec_x v * s, vec_y = vec_y v * s, vec_z = vec_z v * s\<rparr>"

definition vlength :: "Vector3 \<Rightarrow> real" where
  "vlength v = sqrt (vec_x v * vec_x v + vec_y v * vec_y v + vec_z v * vec_z v)"

definition normalize :: "Vector3 \<Rightarrow> Vector3" where
  \<comment> \<open>\<^verbatim>\<open>this.divideScalar(this.length() || 1)\<close>: the zero vector stays as it is.\<close>
  "normalize v = multiplyScalar v (1 / (if vlength v = 0 then 1 else vlength v))"

text \<open>\<^verbatim>\<open>distance < closestDistance\<close> where \<^verbatim>\<open>closestDistance\<close> starts as \<^verbatim>\<open>Infinity\<close>.\<close>

definition belowInf :: "real \<Rightarrow> real option \<Rightarrow> bool" where
  "belowInf d closestDistance = (case closestDistance of None \<Rightarrow> True | Some c \<Rightarrow> d < c)"

text \<open>The horizontal distance \<^verbatim>\<open>Math.sqrt((a.x - x) ** 2 + (a.z - z) ** 2)\<close>.\<close>

definition hdist :: "Vector3 \<Rightarrow> real \<Rightarrow> real \<Rightarrow> real" where
  "hdist point x z = sqrt ((vec_x point - x)\<^sup>2 + (vec_z point - z)\<^sup>2)"

section \<open>Track queries\<close>

fun heightScan :: "real \<Rightarrow> real \<Rightarrow> Vector3 list \<Rightarrow> real option \<times> real \<Rightarrow> real option \<times> real" where
  "heightScan x z [] acc = acc"
| "heightScan x z (point # rest) (closestDistance, closestHeight) =
     (let distance = hdist point x z
      in heightScan x z rest
           (if belowInf distance closestDistance then (Some distance, vec_y point)
            else (closestDistance, closestHeight)))"

definition getTrackHeightAt :: "Vector3 list \<Rightarrow> real \<Rightarrow> real \<Rightarrow> real" where
  "getTrackHeightAt tp x z = snd (heightScan x z tp (None, 0))"

text \<open>
  The closest-point loop shared by \<^verbatim>\<open>isPositionValid\<close> and \<^verbatim>\<open>resetToTrackCenter\<close>: the
  accumulator is (\<^verbatim>\<open>closestTrackPoint\<close>, \<^verbatim>\<open>closestDistance\<close>, \<^verbatim>\<open>closestIndex\<close>), the \<open>nat\<close>
  argument the loop counter \<^verbatim>\<open>i\<close>. \<^verbatim>\<open>closestTrackPoint\<close> starts as \<^verbatim>\<open>trackPoints[0]\<close>, which
  is \<^verbatim>\<open>undefined\<close> (\<open>None\<close>) on an empty track.
\<close>

fun closestScan ::
  "real \<Rightarrow> real \<Rightarrow> Vector3 list \<Rightarrow> nat \<Rightarrow> Vector3 option \<times> real option \<times> nat
   \<Rightarrow> Vector3 option \<times> real option \<times> nat" where
  "closestScan x z [] i acc = acc"
| "closestScan x z (point # rest) i (closestTrackPoint, closestDistance, closestIndex) =
     (let distance = hdist point x z
      in closestScan x z rest (Suc i)
           (if belowInf distance closestDistance then (Some point, Some distance, i)
            else (closestTrackPoint, closestDistance, closestIndex)))"

definition closestTrack :: "Vector3 list \<Rightarrow> real \<Rightarrow> real \<Rightarrow> Vector3 option \<times> real option \<times> nat" where
  "closestTrack tp x z =
     closestScan x z tp 0 ((case tp of [] \<Rightarrow> None | p0 # _ \<Rightarrow> Some p0), None, 0)"

abbreviation cartRadius :: real where "cartRadius \<equiv> 0.8"
abbreviation trackWidth :: real where "trackWidth \<equiv> 12"

definition isPositionValid :: "Vector3 list \<Rightarrow> real \<Rightarrow> real \<Rightarrow> error + bool" where
  "isPositionValid tp x z =
     (case closestTrack tp x z of
        (None, _, _) \<Rightarrow> Inl TypeError
      | (Some closestTrackPoint, _, closestIndex) \<Rightarrow>
          (let nextIndex = (closestIndex + 1) mod length tp;
               nextPoint = tp ! nextIndex;
               direction = normalize (subVectors nextPoint closestTrackPoint);
               perpendicular = \<lparr>vec_x = - vec_z direction, vec_y = 0, vec_z = vec_x direction\<rparr>;
               innerPoint = addVector closestTrackPoint (multiplyScalar perpendicular (- trackWidth / 2));
               outerPoint = addVector closestTrackPoint (multiplyScalar perpendicular (trackWidth / 2));
               distanceFromCenter = hdist closestTrackPoint x z;
               maxDistanceFromCenter = (trackWidth / 2) - cartRadius;
               distToInner = hdist innerPoint x z;
               distToOuter = hdist outerPoint x z
           in Inr (distanceFromCenter \<le> maxDistanceFromCenter \<and> distToInner > cartRadius
                   \<and> distToOuter > cartRadius)))"

section \<open>Recovery and damage\<close>

definition resetToTrackCenter :: "props \<Rightarrow> cart \<Rightarrow> error + cart" where
  "resetToTrackCenter p c =
     (case closestTrack (trackPoints p) (vec_x (position c)) (vec_z (position c)) of
        (None, _, _) \<Rightarrow> Inl TypeError
      | (Some closestTrackPoint, _, closestIndex) \<Rightarrow>
          (let trackHeight =
                 getTrackHeightAt (trackPoints p) (vec_x closestTrackPoint) (vec_z closestTrackPoint);
               newPosition = \<lparr>vec_x = vec_x closestTrackPoint, vec_y = trackHeight + 0.5,
                               vec_z = vec_z closestTrackPoint\<rparr>;
               nextIndex = (closestIndex + 1) mod length (trackPoints p);
               nextPoint = trackPoints p ! nextIndex;
               newRotation = atan2 (vec_x nextPoint - vec_x closestTrackPoint)
                                   (vec_z nextPoint - vec_z closestTrackPoint)
           in Inr (c\<lparr>position := newPosition, rotation := newRotation, velocity := 0,
                     angularVelocity := 0, currentTrackIndex := closestIndex, isPaused := True,
                     pauseTimeLeft := 3.0, wallHits := wallHits c + 1\<rparr>)))"

definition resetToStart :: "props \<Rightarrow> cart \<Rightarrow> cart" where
  "resetToStart p c =
     c\<lparr>position := startPosition p, rotation := pi / 2, velocity := 0, angularVelocity := 0,
       currentTrackIndex := 0, hitPoints := 10, isPaused := False, pauseTimeLeft := 0,
       isStunned := False, stunTimeLeft := 0, lastCheckpoint := - 1\<rparr>"

text \<open>The guard \<^verbatim>\<open>newHitPoints <= 0\<close> under which \<^verbatim>\<open>takeDamage\<close> calls \<^verbatim>\<open>resetToStart\<close>.\<close>

definition callsResetToStart :: "cart \<Rightarrow> bool" where
  "callsResetToStart c = (hitPoints c - 1 \<le> 0)"

definition takeDamage :: "props \<Rightarrow> cart \<Rightarrow> cart" where
  "takeDamage p c =
     (let newHitPoints = hitPoints c - 1;
          c' = c\<lparr>hitPoints := newHitPoints, isStunned := True, stunTimeLeft := 0.1,
                 velocity := 0, angularVelocity := 0, cartHits := cartHits c + 1\<rparr>
      in if callsResetToStart c then resetToStart p c' else c')"

section \<open>Cart collisions\<close>

abbreviation collisionRadius :: real where "collisionRadius \<equiv> 1.5"

text \<open>
  The result is the returned boolean and the list of ids \<^verbatim>\<open>onCartCollision\<close> was called
  with, in call order.
\<close>

fun checkCartCollisions :: "props \<Rightarrow> Vector3 \<Rightarrow> positions \<Rightarrow> bool \<times> string list" where
  "checkCartCollisions p newPos [] = (False, [])"
| "checkCartCollisions p newPos ((otherId, otherPos) # rest) =
     (if otherId \<noteq> cartId p then
        (let distance = sqrt ((vec_x newPos - vec_x otherPos)\<^sup>2 + (vec_z newPos - vec_z otherPos)\<^sup>2)
         in if distance < collisionRadius
            then (True, if onCartCollision p then [otherId] else [])
            else checkCartCollisions p newPos rest)
      else checkCartCollisions p newPos rest)"

section \<open>AI steering\<close>

fun lookaheadDistance :: "AiStyle \<Rightarrow> real" where
  "lookaheadDistance Aggressive = 8"
| "lookaheadDistance Cautious = 12"
| "lookaheadDistance Normal = 10"

fun speedTarget :: "AiStyle \<Rightarrow> real" where
  "speedTarget Aggressive = 0.35"
| "speedTarget Cautious = 0.25"
| "speedTarget Normal = 0.3"

fun turnThreshold :: "AiStyle \<Rightarrow> real" where
  "turnThreshold Aggressive = 0.1"
| "turnThreshold Cautious = 0.05"
| "turnThreshold Normal = 0.08"

text \<open>The two normalisation loops of \<^verbatim>\<open>getAIControls\<close>.\<close>

function subLoop :: "real \<Rightarrow> real" where
  "subLoop angleDiff = (if angleDiff > pi then subLoop (angleDiff - 2 * pi) else angleDiff)"
  by pat_completeness auto
termination
proof (relation "measure (\<lambda>a. nat \<lceil>(a - pi) / (2 * pi)\<rceil>)")
  show "wf (measure (\<lambda>a. nat \<lceil>(a - pi) / (2 * pi)\<rceil>))" by simp
next
  fix angleDiff :: real
  assume gt: "pi < angleDiff"
  have eq: "(angleDiff - 2 * pi - pi) / (2 * pi) = (angleDiff - pi) / (2 * pi) - 1"
    by (simp add: field_simps)
  have pos: "0 < (angleDiff - pi) / (2 * pi)" using gt by simp
  then have "0 < \<lceil>(angleDiff - pi) / (2 * pi)\<rceil>" by (simp add: less_ceiling_iff)
  then show "(angleDiff - 2 * pi, angleDiff) \<in> measure (\<lambda>a. nat \<lceil>(a - pi) / (2 * pi)\<rceil>)"
    unfolding in_measure eq by simp
qed

function addLoop :: "real \<Rightarrow> real" where
  "addLoop angleDiff = (if angleDiff < - pi then addLoop (angleDiff + 2 * pi) else angleDiff)"
  by pat_completeness auto
termination
proof (relation "measure (\<lambda>a. nat \<lceil>(- pi - a) / (2 * pi)\<rceil>)")
  show "wf (measure (\<lambda>a. nat \<lceil>(- pi - a) / (2 * pi)\<rceil>))" by simp
next
  fix angleDiff :: real
  assume lt: "angleDiff < - pi"
  have eq: "(- pi - (angleDiff + 2 * pi)) / (2 * pi) = (- pi - angleDiff) / (2 * pi) - 1"
    by (simp add: field_simps)
  have pos: "0 < (- pi - angleDiff) / (2 * pi)" using lt by simp
  then have "0 < \<lceil>(- pi - angleDiff) / (2 * pi)\<rceil>" by (simp add: less_ceiling_iff)
  then show "(angleDiff + 2 * pi, angleDiff) \<in> measure (\<lambda>a. nat \<lceil>(- pi - a) / (2 * pi)\<rceil>)"
    unfolding in_measure eq by simp
qed

declare subLoop.simps [simp del] addLoop.simps [simp del]

definition normalizeAngleDiff :: "real \<Rightarrow> real \<Rightarrow> real" where
  "normalizeAngleDiff targetDirection rot = addLoop (subLoop (targetDirection - rot))"

text \<open>
  The retargeting step of \<^verbatim>\<open>getAIControls\<close>: the state after the call of
  \<^verbatim>\<open>setCurrentTrackIndex\<close>, if any, and the value of \<^verbatim>\<open>targetPoint\<close> after the conditional.
  \<^verbatim>\<open>trackPoints[currentTrackIndex]\<close> is \<^verbatim>\<open>undefined\<close> when the index is out of range, and
  reading its \<^verbatim>\<open>x\<close> throws.
\<close>

definition aiTarget :: "props \<Rightarrow> cart \<Rightarrow> error + cart \<times> Vector3" where
  "aiTarget p c =
     (if \<not> currentTrackIndex c < length (trackPoints p) then Inl TypeError
      else
        (let targetPoint = trackPoints p ! currentTrackIndex c;
             distanceToTarget = hdist targetPoint (vec_x (position c)) (vec_z (position c))
         in if distanceToTarget < 3
            then Inr (c\<lparr>currentTrackIndex := (currentTrackIndex c + 1) mod length (trackPoints p)\<rparr>,
                      trackPoints p ! ((currentTrackIndex c + nat \<lfloor>lookaheadDistance (aiStyle p) / 3\<rfloor>)
                                        mod length (trackPoints p)))
            else Inr (c,
                      trackPoints p ! ((currentTrackIndex c + nat \<lfloor>lookaheadDistance (aiStyle p) / 3\<rfloor>)
                                        mod length (trackPoints p)))))"

definition getAIControls :: "props \<Rightarrow> cart \<Rightarrow> error + Keys \<times> cart" where
  "getAIControls p c =
     (if isPlayer p
      then Inr (\<lparr>forward = False, backward = False, left = False, right = False\<rparr>, c)
      else
        (case aiTarget p c of
           Inl e \<Rightarrow> Inl e
         | Inr (c1, targetPoint) \<Rightarrow>
             (let targetDirection = atan2 (vec_x targetPoint - vec_x (position c))
                                          (vec_z targetPoint - vec_z (position c));
                  angleDiff = normalizeAngleDiff targetDirection (rotation c);
                  needsForward = velocity c < speedTarget (aiStyle p);
                  needsLeft = angleDiff > turnThreshold (aiStyle p);
                  needsRight = angleDiff < - turnThreshold (aiStyle p)
              in Inr (\<lparr>forward = needsForward, backward = False, left = needsLeft,
                        right = needsRight\<rparr>, c1))))"

section \<open>The frame update\<close>

abbreviation maxSpeed :: real where "maxSpeed \<equiv> 0.4"
abbreviation acceleration :: real where "acceleration \<equiv> 0.8"
abbreviation deceleration :: real where "deceleration \<equiv> 1.2"
abbreviation friction :: real where "friction \<equiv> 0.96"
abbreviation maxTurnSpeed :: real where "maxTurnSpeed \<equiv> 0.08"
abbreviation turnAcceleration :: real where "turnAcceleration \<equiv> 0.15"
abbreviation turnFriction :: real where "turnFriction \<equiv> 0.9"

text \<open>\<^verbatim>\<open>newVelocity\<close> after the acceleration/deceleration conditional and the friction line.\<close>

definition frameVelocity :: "Keys \<Rightarrow> real \<Rightarrow> real \<Rightarrow> real" where
  "frameVelocity controls delta v =
     (if forward controls then min maxSpeed (v + acceleration * delta)
      else if backward controls then max (- maxSpeed * 0.6) (v - deceleration * delta)
      else if v > 0 then max 0 (v - deceleration * delta)
      else min 0 (v + deceleration * delta)) * friction"

text \<open>\<^verbatim>\<open>newAngularVelocity\<close> after the turning conditional, from the new velocity.\<close>

definition frameAngularVelocity :: "Keys \<Rightarrow> real \<Rightarrow> real \<Rightarrow> real \<Rightarrow> real" where
  "frameAngularVelocity controls delta newVelocity w =
     (let speedFactor = \<bar>newVelocity\<bar> / maxSpeed;
          effectiveTurnSpeed = maxTurnSpeed * speedFactor
      in if left controls then min effectiveTurnSpeed (w + turnAcceleration * delta)
         else if right controls then max (- effectiveTurnSpeed) (w - turnAcceleration * delta)
         else w * turnFriction)"

text \<open>Lap accounting: the checkpoint of a track index, and the update of the counters.\<close>

definition currentCheckpoint :: "Vector3 list \<Rightarrow> nat \<Rightarrow> int" where
  "currentCheckpoint tp idx = \<lfloor>real idx / (real (length tp) / 4)\<rfloor>"

definition lapAccounting :: "int \<Rightarrow> cart \<Rightarrow> cart" where
  "lapAccounting cur c =
     (if cur \<noteq> lastCheckpoint c
      then (if cur = 0 \<and> lastCheckpoint c = 3 then c\<lparr>laps := laps c + 1\<rparr> else c)
             \<lparr>lastCheckpoint := cur\<rparr>
      else c)"

text \<open>
  The controls of the frame: the keyboard state for the player, \<^verbatim>\<open>getAIControls()\<close>
  otherwise.
\<close>

definition frameControls :: "props \<Rightarrow> Keys \<Rightarrow> cart \<Rightarrow> error + Keys \<times> cart" where
  "frameControls p keys c = (if isPlayer p then Inr (keys, c) else getAIControls p c)"

text \<open>\<^verbatim>\<open>newRotation\<close> and \<^verbatim>\<open>tentativePosition\<close> of a frame, from the state of the render.\<close>

definition frameRotation :: "Keys \<Rightarrow> real \<Rightarrow> cart \<Rightarrow> real" where
  "frameRotation controls delta c =
     (let newVelocity = frameVelocity controls delta (velocity c);
          newAngularVelocity = frameAngularVelocity controls delta newVelocity (angularVelocity c)
      in rotation c + newAngularVelocity)"

definition frameTentative :: "Keys \<Rightarrow> real \<Rightarrow> cart \<Rightarrow> Vector3" where
  "frameTentative controls delta c =
     (let newVelocity = frameVelocity controls delta (velocity c);
          newRotation = frameRotation controls delta c
      in (position c)\<lparr>vec_x := vec_x (position c) + sin newRotation * newVelocity,
                       vec_z := vec_z (position c) + cos newRotation * newVelocity\<rparr>)"

text \<open>
  The callback of \<^verbatim>\<open>useFrame\<close>. The result is the new state of the cart, the shared position
  map and the ids \<^verbatim>\<open>onCartCollision\<close> was called with; the pose written to the scene graph
  and the \<^verbatim>\<open>onPositionChange\<close> and \<^verbatim>\<open>onStatsUpdate\<close> callbacks are rendering and are left
  out. Reads are from the state \<open>c\<close> of the render (so the checkpoint is computed from the
  index before \<^verbatim>\<open>getAIControls\<close> advanced it); writes go to the pending state.
\<close>

definition useFrame ::
  "props \<Rightarrow> Keys \<Rightarrow> real \<Rightarrow> positions \<Rightarrow> cart \<Rightarrow> error + cart \<times> positions \<times> string list" where
  "useFrame p keys delta allCartPositions c =
     (if \<not> groupRefCurrent p then Inr (c, allCartPositions, [])
      else if isPaused c then
        (let newTime = max 0 (pauseTimeLeft c - delta);
             c' = c\<lparr>pauseTimeLeft := newTime\<rparr>
         in Inr (if newTime \<le> 0 then c'\<lparr>isPaused := False\<rparr> else c', allCartPositions, []))
      else if isStunned c then
        (let newTime = max 0 (stunTimeLeft c - delta);
             c' = c\<lparr>stunTimeLeft := newTime\<rparr>
         in Inr (if newTime \<le> 0 then c'\<lparr>isStunned := False\<rparr> else c', allCartPositions, []))
      else
        (case frameControls p keys c of
           Inl e \<Rightarrow> Inl e
         | Inr (controls, c1) \<Rightarrow>
             (let newVelocity = frameVelocity controls delta (velocity c);
                  newAngularVelocity = frameAngularVelocity controls delta newVelocity (angularVelocity c);
                  newRotation = frameRotation controls delta c;
                  tentativePosition = frameTentative controls delta c
              in case isPositionValid (trackPoints p) (vec_x tentativePosition) (vec_z tentativePosition) of
                   Inl e \<Rightarrow> Inl e
                 | Inr False \<Rightarrow>
                     (case resetToTrackCenter p c1 of
                        Inl e \<Rightarrow> Inl e
                      | Inr c2 \<Rightarrow> Inr (c2, allCartPositions, []))
                 | Inr True \<Rightarrow>
                     (let (hit, notified) = checkCartCollisions p tentativePosition allCartPositions;
                          newPosition0 = (if hit then position c else tentativePosition);
                          trackHeight = getTrackHeightAt (trackPoints p) (vec_x newPosition0) (vec_z newPosition0);
                          newPosition = newPosition0\<lparr>vec_y := trackHeight + 0.5\<rparr>;
                          c2 = c1\<lparr>position := newPosition, rotation := newRotation,
                                  velocity := newVelocity, angularVelocity := newAngularVelocity\<rparr>;
                          c3 = lapAccounting (currentCheckpoint (trackPoints p) (currentTrackIndex c)) c2
                      in Inr (c3, mapSet (cartId p) newPosition allCartPositions, notified)))))"

section \<open>The centerline that Track builds\<close>



section \<open>Histories of one cart\<close>

text \<open>
  The history of one cart: the frames the renderer runs on it, each with the keyboard
  state, the elapsed time and the position map it sees, and the hits other carts deliver
  (\<^verbatim>\<open>takeDamage\<close>). A run stops at the first frame that throws.
\<close>

datatype event = Frame Keys real positions | Hit

fun step :: "props \<Rightarrow> cart \<Rightarrow> event \<Rightarrow> error + cart" where
  "step p c (Frame keys delta m) =
     (case useFrame p keys delta m c of Inl e \<Rightarrow> Inl e | Inr (c', _, _) \<Rightarrow> Inr c')"
| "step p c Hit = Inr (takeDamage p c)"

fun run :: "props \<Rightarrow> cart \<Rightarrow> event list \<Rightarrow> error + cart" where
  "run p c [] = Inr c"
| "run p c (ev # evs) = (case step p c ev of Inl e \<Rightarrow> Inl e | Inr c' \<Rightarrow> run p c' evs)"

text \<open>
  The condition under which a frame reaches the call of \<^verbatim>\<open>resetToTrackCenter\<close>, and the
  events that call one of the two resets: a frame with a wall violation, a hit that takes
  the last hit point.
\<close>

definition wallViolation :: "props \<Rightarrow> Keys \<Rightarrow> real \<Rightarrow> cart \<Rightarrow> bool" where
  "wallViolation p keys delta c =
     (groupRefCurrent p \<and> \<not> isPaused c \<and> \<not> isStunned c \<and>
      (case frameControls p keys c of
         Inl e \<Rightarrow> False
       | Inr (controls, c1) \<Rightarrow>
           isPositionValid (trackPoints p) (vec_x (frameTentative controls delta c))
             (vec_z (frameTentative controls delta c)) = Inr False))"

fun resets :: "props \<Rightarrow> cart \<Rightarrow> event \<Rightarrow> bool" where
  "resets p c (Frame keys delta m) = wallViolation p keys delta c"
| "resets p c Hit = callsResetToStart c"

fun neverResets :: "props \<Rightarrow> cart \<Rightarrow> event list \<Rightarrow> bool" where
  "neverResets p c [] = True"
| "neverResets p c (ev # evs) =
     (\<not> resets p c ev \<and> (case step p c ev of Inl e \<Rightarrow> True | Inr c' \<Rightarrow> neverResets p c' evs))"

section \<open>The roster and a small track for worked examples\<close>

text \<open>The three carts that \<^verbatim>\<open>Track\<close> renders, over a given centerline.\<close>

definition playerProps :: "Vector3 list \<Rightarrow> props" where
  "playerProps tp =
     \<lparr>trackPoints = tp, isPlayer = True, aiStyle = Normal, cartId = ''player'',
      startPosition = \<lparr>vec_x = 45, vec_y = 1.0, vec_z = 0\<rparr>,
      onCartCollision = True, groupRefCurrent = True\<rparr>"

definition ai1Props :: "Vector3 list \<Rightarrow> props" where
  "ai1Props tp =
     \<lparr>trackPoints = tp, isPlayer = False, aiStyle = Aggressive, cartId = ''ai1'',
      startPosition = \<lparr>vec_x = 45, vec_y = 1.0, vec_z = - 4.95\<rparr>,
      onCartCollision = True, groupRefCurrent = True\<rparr>"

definition ai2Props :: "Vector3 list \<Rightarrow> props" where
  "ai2Props tp =
     \<lparr>trackPoints = tp, isPlayer = False, aiStyle = Cautious, cartId = ''ai2'',
      startPosition = \<lparr>vec_x = 45, vec_y = 1.0, vec_z = 4.95\<rparr>,
      onCartCollision = True, groupRefCurrent = True\<rparr>"

text \<open>The state a cart is created with.\<close>

definition initialCart :: "props \<Rightarrow> cart" where
  "initialCart p =
     \<lparr>position = startPosition p, rotation = pi / 2, velocity = 0, angularVelocity = 0,
      currentTrackIndex = 0, isPaused = False, pauseTimeLeft = 0, hitPoints = 10,
      isStunned = False, stunTimeLeft = 0, laps = 0, wallHits = 0, cartHits = 0,
      lastCheckpoint = - 1\<rparr>"

text \<open>
  A closed four-point centerline (a square of side 10 at elevation 2), small enough for
  the examples to be evaluated by the simplifier.
\<close>

definition squareTrack :: "Vector3 list" where
  "squareTrack =
     [\<lparr>vec_x = 0, vec_y = 2, vec_z = 0\<rparr>, \<lparr>vec_x = 10, vec_y = 2, vec_z = 0\<rparr>,
      \<lparr>vec_x = 10, vec_y = 2, vec_z = 10\<rparr>, \<lparr>vec_x = 0, vec_y = 2, vec_z = 10\<rparr>]"

text \<open>A cart at rest on the square track, heading along +x, and the idle keyboard.\<close>

definition cartAt :: "real \<Rightarrow> real \<Rightarrow> cart" where
  "cartAt x z =
     \<lparr>position = \<lparr>vec_x = x, vec_y = 2.5, vec_z = z\<rparr>, rotation = pi / 2, velocity = 0,
      angularVelocity = 0, currentTrackIndex = 0, isPaused = False, pauseTimeLeft = 0,
      hitPoints = 10, isStunned = False, stunTimeLeft = 0, laps = 0, wallHits = 0,
      cartHits = 0, lastCheckpoint = - 1\<rparr>"

definition noKeys :: Keys where
  "noKeys = \<lparr>forward = False, backward = False, left = False, right = False\<rparr>"


section \<open>Evaluating distances\<close>

text \<open>
  Comparisons of a square root with a constant are decided on the squares, also in the
  shapes the simplifier gives to a comparison with a decimal fraction.
\<close>

lemma sqrt_100: "sqrt 100 = 10"
  using real_sqrt_abs[of 10] by simp

lemma sqrt_less_iff: "0 \<le> r \<Longrightarrow> sqrt s < r \<longleftrightarrow> s < r * r"
  using real_sqrt_less_iff[of s "r\<^sup>2"] by (simp add: power2_eq_square)

lemma sqrt_le_iff: "0 \<le> r \<Longrightarrow> sqrt s \<le> r \<longleftrightarrow> s \<le> r * r"
  using real_sqrt_le_iff[of s "r\<^sup>2"] by (simp add: power2_eq_square)

lemma less_sqrt_iff: "0 \<le> r \<Longrightarrow> r < sqrt s \<longleftrightarrow> r * r < s"
  using real_sqrt_less_iff[of "r\<^sup>2" s] by (simp add: power2_eq_square)

lemma sqrt_times_less:
  "0 < b \<Longrightarrow> 0 \<le> a \<Longrightarrow> sqrt s * b < a \<longleftrightarrow> s < (a / b) * (a / b)"
  using sqrt_less_iff[of "a / b" s] by (simp add: field_simps)

lemma hdist_less_num:
  "0 \<le> r \<Longrightarrow> hdist pt x z < r \<longleftrightarrow> (vec_x pt - x)\<^sup>2 + (vec_z pt - z)\<^sup>2 < r * r"
  by (simp add: hdist_def sqrt_less_iff)

lemma hdist_le_num:
  "0 \<le> r \<Longrightarrow> hdist pt x z \<le> r \<longleftrightarrow> (vec_x pt - x)\<^sup>2 + (vec_z pt - z)\<^sup>2 \<le> r * r"
  by (simp add: hdist_def sqrt_le_iff)

lemma num_less_hdist:
  "0 \<le> r \<Longrightarrow> r < hdist pt x z \<longleftrightarrow> r * r < (vec_x pt - x)\<^sup>2 + (vec_z pt - z)\<^sup>2"
  by (simp add: hdist_def less_sqrt_iff)

lemma hdist_times_less:
  "0 < b \<Longrightarrow> 0 \<le> a \<Longrightarrow>
   hdist pt x z * b < a \<longleftrightarrow> (vec_x pt - x)\<^sup>2 + (vec_z pt - z)\<^sup>2 < (a / b) * (a / b)"
  using hdist_less_num[of "a / b" pt x z] by (simp add: field_simps)

lemma hdist_times_le:
  "0 < b \<Longrightarrow> 0 \<le> a \<Longrightarrow>
   hdist pt x z * b \<le> a \<longleftrightarrow> (vec_x pt - x)\<^sup>2 + (vec_z pt - z)\<^sup>2 \<le> (a / b) * (a / b)"
  using hdist_le_num[of "a / b" pt x z] by (simp add: field_simps)

lemma less_hdist_times:
  "0 < b \<Longrightarrow> 0 \<le> a \<Longrightarrow>
   a < hdist pt x z * b \<longleftrightarrow> (a / b) * (a / b) < (vec_x pt - x)\<^sup>2 + (vec_z pt - z)\<^sup>2"
  using num_less_hdist[of "a / b" pt x z] by (simp add: field_simps)

lemma hdist_less_hdist:
  "hdist a x z < hdist b x' z' \<longleftrightarrow>
     (vec_x a - x)\<^sup>2 + (vec_z a - z)\<^sup>2 < (vec_x b - x')\<^sup>2 + (vec_z b - z')\<^sup>2"
  by (simp add: hdist_def)

lemmas hdist_cmp = hdist_less_num hdist_le_num num_less_hdist hdist_less_hdist
  hdist_times_less hdist_times_le less_hdist_times

lemmas track_eval = power2_eq_square closestTrack_def getTrackHeightAt_def belowInf_def Let_def
  subVectors_def normalize_def vlength_def multiplyScalar_def addVector_def isPositionValid_def
  squareTrack_def hdist_cmp sqrt_100

section \<open>The paths of a frame\<close>

text \<open>
  A frame that is mounted, neither paused nor stunned, and whose tentative position is
  within bounds runs to the end of the callback.
\<close>

lemma useFrame_within_bounds:
  assumes "groupRefCurrent p" "\<not> isPaused c" "\<not> isStunned c"
    and "frameControls p keys c = Inr (controls, c1)"
    and "isPositionValid (trackPoints p) (vec_x (frameTentative controls delta c))
           (vec_z (frameTentative controls delta c)) = Inr True"
  shows "useFrame p keys delta m c =
     (let tentativePosition = frameTentative controls delta c;
          newPosition0 = (if fst (checkCartCollisions p tentativePosition m) then position c
                          else tentativePosition);
          newPosition = newPosition0\<lparr>vec_y :=
             getTrackHeightAt (trackPoints p) (vec_x newPosition0) (vec_z newPosition0) + 0.5\<rparr>
      in Inr (lapAccounting (currentCheckpoint (trackPoints p) (currentTrackIndex c))
                (c1\<lparr>position := newPosition, rotation := frameRotation controls delta c,
                    velocity := frameVelocity controls delta (velocity c),
                    angularVelocity := frameAngularVelocity controls delta
                       (frameVelocity controls delta (velocity c)) (angularVelocity c)\<rparr>),
              mapSet (cartId p) newPosition m,
              snd (checkCartCollisions p tentativePosition m)))"
  using assms by (simp add: useFrame_def Let_def split: prod.split)

text \<open>A frame whose tentative position is out of bounds ends in \<^verbatim>\<open>resetToTrackCenter\<close>.\<close>

lemma useFrame_out_of_bounds:
  assumes "groupRefCurrent p" "\<not> isPaused c" "\<not> isStunned c"
    and "frameControls p keys c = Inr (controls, c1)"
    and "isPositionValid (trackPoints p) (vec_x (frameTentative controls delta c))
           (vec_z (frameTentative controls delta c)) = Inr False"
  shows "useFrame p keys delta m c =
     (case resetToTrackCenter p c1 of Inl e \<Rightarrow> Inl e | Inr c2 \<Rightarrow> Inr (c2, m, []))"
  using assms by (simp add: useFrame_def Let_def)

text \<open>The control step changes nothing of the state but the tracked index.\<close>

lemma aiTarget_state:
  "aiTarget p c = Inr (c1, t) \<Longrightarrow> \<exists>i. c1 = c\<lparr>currentTrackIndex := i\<rparr>"
  by (auto simp: aiTarget_def Let_def split: if_splits intro: exI[of _ "currentTrackIndex c"])

lemma frameControls_state:
  "frameControls p keys c = Inr (controls, c1) \<Longrightarrow> \<exists>i. c1 = c\<lparr>currentTrackIndex := i\<rparr>"
  by (auto simp: frameControls_def getAIControls_def Let_def split: if_splits sum.splits prod.splits
      dest: aiTarget_state intro: exI[of _ "currentTrackIndex c"])

section \<open>Cart collisions: the scan of the shared position map\<close>

text \<open>
  C1. \<^verbatim>\<open>checkCartCollisions\<close> returns true exactly when the position map holds an entry of
  another id whose horizontal distance to the tentative position is below 1.5. Entries under
  the cart's own id are skipped (removing them changes nothing), so another cart at the very
  same position is a collision. The callback is called for the first such entry in iteration
  order and for no other: at most one id is notified per call.
\<close>

theorem checkCartCollisions_first_match:
  "(fst (checkCartCollisions p newPos m) \<longleftrightarrow>
      (\<exists>(i, q) \<in> set m. i \<noteq> cartId p \<and>
         sqrt ((vec_x newPos - vec_x q)\<^sup>2 + (vec_z newPos - vec_z q)\<^sup>2) < 1.5))
   \<and> snd (checkCartCollisions p newPos m) =
       (case find (\<lambda>(i, q). i \<noteq> cartId p \<and>
                sqrt ((vec_x newPos - vec_x q)\<^sup>2 + (vec_z newPos - vec_z q)\<^sup>2) < 1.5) m of
          None \<Rightarrow> []
        | Some (i, q) \<Rightarrow> if onCartCollision p then [i] else [])
   \<and> length (snd (checkCartCollisions p newPos m)) \<le> 1
   \<and> checkCartCollisions p newPos m =
       checkCartCollisions p newPos (filter (\<lambda>(i, q). i \<noteq> cartId p) m)
   \<and> ((j, r) \<in> set m \<and> j \<noteq> cartId p \<and> vec_x r = vec_x newPos \<and> vec_z r = vec_z newPos
        \<longrightarrow> fst (checkCartCollisions p newPos m))"
proof -
  let ?near = "\<lambda>(i, q). i \<noteq> cartId p \<and>
                 sqrt ((vec_x newPos - vec_x q)\<^sup>2 + (vec_z newPos - vec_z q)\<^sup>2) < 1.5"
  have ret: "fst (checkCartCollisions p newPos m) \<longleftrightarrow> (\<exists>e \<in> set m. ?near e)"
    by (induction p newPos m rule: checkCartCollisions.induct) (simp_all add: Let_def)
  have calls: "snd (checkCartCollisions p newPos m) =
       (case find ?near m of None \<Rightarrow> []
        | Some (i, q) \<Rightarrow> if onCartCollision p then [i] else [])"
    by (induction p newPos m rule: checkCartCollisions.induct) (simp_all add: Let_def)
  have one: "length (snd (checkCartCollisions p newPos m)) \<le> 1"
    unfolding calls by (simp split: option.split prod.split)
  have self: "checkCartCollisions p newPos m =
       checkCartCollisions p newPos (filter (\<lambda>(i, q). i \<noteq> cartId p) m)"
    by (induction p newPos m rule: checkCartCollisions.induct) (simp_all add: Let_def)
  have same: "(j, r) \<in> set m \<and> j \<noteq> cartId p \<and> vec_x r = vec_x newPos \<and> vec_z r = vec_z newPos
        \<longrightarrow> fst (checkCartCollisions p newPos m)"
    unfolding ret by force
  from ret calls one self same show ?thesis by blast
qed

text \<open>
  The player's tentative position coincides with the published position of \<open>ai1\<close>; the
  player's own entry, first in the map, is skipped and \<open>ai1\<close> alone is notified.
\<close>

theorem checkCartCollisions_first_match_witness:
  "(''ai1'', \<lparr>vec_x = 1, vec_y = 2.5, vec_z = 0\<rparr>)
       \<in> set [(''player'', \<lparr>vec_x = 1, vec_y = 2.5, vec_z = 0\<rparr>),
              (''ai1'', \<lparr>vec_x = 1, vec_y = 2.5, vec_z = 0\<rparr>),
              (''ai2'', \<lparr>vec_x = 1, vec_y = 2.5, vec_z = 1\<rparr>)]
   \<and> ''ai1'' \<noteq> cartId (playerProps squareTrack)
   \<and> checkCartCollisions (playerProps squareTrack) \<lparr>vec_x = 1, vec_y = 2.5, vec_z = 0\<rparr>
        [(''player'', \<lparr>vec_x = 1, vec_y = 2.5, vec_z = 0\<rparr>),
         (''ai1'', \<lparr>vec_x = 1, vec_y = 2.5, vec_z = 0\<rparr>),
         (''ai2'', \<lparr>vec_x = 1, vec_y = 2.5, vec_z = 1\<rparr>)] = (True, [''ai1''])"
  using checkCartCollisions_first_match
    [of "playerProps squareTrack" "\<lparr>vec_x = 1, vec_y = 2.5, vec_z = 0\<rparr>"
        "[(''player'', \<lparr>vec_x = 1, vec_y = 2.5, vec_z = 0\<rparr>),
          (''ai1'', \<lparr>vec_x = 1, vec_y = 2.5, vec_z = 0\<rparr>),
          (''ai2'', \<lparr>vec_x = 1, vec_y = 2.5, vec_z = 1\<rparr>)]"
        "''ai1''" "\<lparr>vec_x = 1, vec_y = 2.5, vec_z = 0\<rparr>"]
  by (simp add: playerProps_def)

section \<open>Lap accounting\<close>


lemma lapAccounting_laps:
  "laps (lapAccounting cur c) =
     laps c + (if cur \<noteq> lastCheckpoint c \<and> lastCheckpoint c = 3 \<and> cur = 0 then 1 else 0)"
  by (simp add: lapAccounting_def)

lemma lapAccounting_last: "lastCheckpoint (lapAccounting cur c) = cur"
  by (simp add: lapAccounting_def)

text \<open>
  C2. In a frame that reaches the lap accounting (mounted, neither paused nor stunned,
  tentative position within bounds) and in which the checkpoint of the tracked index,
  \<open>\<lfloor>currentTrackIndex / (N / 4)\<rfloor>\<close>, differs from the last recorded checkpoint, the lap
  counter grows by 1 if the transition is from 3 to 0 and by 0 otherwise, and the last
  checkpoint becomes the current one. Observing 0, 1, 2, 3, 0 adds one lap and observing
  0, 1, 2, 1, 0 adds none (from a state whose recorded checkpoint is not 3, so that the
  first observation is not itself a lap).
\<close>

theorem lap_counting:
  "(groupRefCurrent p \<and> \<not> isPaused c \<and> \<not> isStunned c
     \<and> frameControls p keys c = Inr (controls, c1)
     \<and> isPositionValid (trackPoints p) (vec_x (frameTentative controls delta c))
           (vec_z (frameTentative controls delta c)) = Inr True
     \<and> currentCheckpoint (trackPoints p) (currentTrackIndex c) \<noteq> lastCheckpoint c
    \<longrightarrow> (\<exists>c' m' notified. useFrame p keys delta m c = Inr (c', m', notified)
      \<and> laps c' = laps c +
           (if lastCheckpoint c = 3 \<and> currentCheckpoint (trackPoints p) (currentTrackIndex c) = 0
            then 1 else 0)
      \<and> lastCheckpoint c' = currentCheckpoint (trackPoints p) (currentTrackIndex c)))
   \<and> (lastCheckpoint c0 \<noteq> 3 \<longrightarrow>
         laps (fold lapAccounting [0, 1, 2, 3, 0] c0) = laps c0 + 1
       \<and> laps (fold lapAccounting [0, 1, 2, 1, 0] c0) = laps c0)"
proof (intro conjI impI)
  assume a: "groupRefCurrent p \<and> \<not> isPaused c \<and> \<not> isStunned c
     \<and> frameControls p keys c = Inr (controls, c1)
     \<and> isPositionValid (trackPoints p) (vec_x (frameTentative controls delta c))
           (vec_z (frameTentative controls delta c)) = Inr True
     \<and> currentCheckpoint (trackPoints p) (currentTrackIndex c) \<noteq> lastCheckpoint c"
  then obtain i where c1: "c1 = c\<lparr>currentTrackIndex := i\<rparr>"
    using frameControls_state by blast
  from a have run: "useFrame p keys delta m c =
     (let tentativePosition = frameTentative controls delta c;
          newPosition0 = (if fst (checkCartCollisions p tentativePosition m) then position c
                          else tentativePosition);
          newPosition = newPosition0\<lparr>vec_y :=
             getTrackHeightAt (trackPoints p) (vec_x newPosition0) (vec_z newPosition0) + 0.5\<rparr>
      in Inr (lapAccounting (currentCheckpoint (trackPoints p) (currentTrackIndex c))
                (c1\<lparr>position := newPosition, rotation := frameRotation controls delta c,
                    velocity := frameVelocity controls delta (velocity c),
                    angularVelocity := frameAngularVelocity controls delta
                       (frameVelocity controls delta (velocity c)) (angularVelocity c)\<rparr>),
              mapSet (cartId p) newPosition m,
              snd (checkCartCollisions p tentativePosition m)))"
    by (intro useFrame_within_bounds) simp_all
  from a show "\<exists>c' m' notified. useFrame p keys delta m c = Inr (c', m', notified)
      \<and> laps c' = laps c +
           (if lastCheckpoint c = 3 \<and> currentCheckpoint (trackPoints p) (currentTrackIndex c) = 0
            then 1 else 0)
      \<and> lastCheckpoint c' = currentCheckpoint (trackPoints p) (currentTrackIndex c)"
    by (simp add: run Let_def lapAccounting_laps lapAccounting_last c1)
next
  assume "lastCheckpoint c0 \<noteq> 3"
  then show "laps (fold lapAccounting [0, 1, 2, 3, 0] c0) = laps c0 + 1"
    by (simp add: lapAccounting_laps lapAccounting_last)
next
  assume "lastCheckpoint c0 \<noteq> 3"
  then show "laps (fold lapAccounting [0, 1, 2, 1, 0] c0) = laps c0"
    by (simp add: lapAccounting_laps lapAccounting_last)
qed

text \<open>
  The player at rest on the square track, tracked index 0 and recorded checkpoint 3: the
  frame counts a lap. A fresh cart that observes the two sequences.
\<close>

theorem lap_counting_witness:
  "groupRefCurrent (playerProps squareTrack)
   \<and> \<not> isPaused ((cartAt 1 0)\<lparr>lastCheckpoint := 3\<rparr>)
   \<and> \<not> isStunned ((cartAt 1 0)\<lparr>lastCheckpoint := 3\<rparr>)
   \<and> frameControls (playerProps squareTrack) noKeys ((cartAt 1 0)\<lparr>lastCheckpoint := 3\<rparr>)
        = Inr (noKeys, (cartAt 1 0)\<lparr>lastCheckpoint := 3\<rparr>)
   \<and> isPositionValid (trackPoints (playerProps squareTrack))
        (vec_x (frameTentative noKeys (1 / 60) ((cartAt 1 0)\<lparr>lastCheckpoint := 3\<rparr>)))
        (vec_z (frameTentative noKeys (1 / 60) ((cartAt 1 0)\<lparr>lastCheckpoint := 3\<rparr>))) = Inr True
   \<and> currentCheckpoint (trackPoints (playerProps squareTrack))
        (currentTrackIndex ((cartAt 1 0)\<lparr>lastCheckpoint := 3\<rparr>)) = 0
   \<and> lastCheckpoint ((cartAt 1 0)\<lparr>lastCheckpoint := 3\<rparr>) = 3
   \<and> (\<exists>c' m' notified.
         useFrame (playerProps squareTrack) noKeys (1 / 60) [] ((cartAt 1 0)\<lparr>lastCheckpoint := 3\<rparr>)
           = Inr (c', m', notified)
         \<and> laps c' = 1 \<and> lastCheckpoint c' = 0)
   \<and> lastCheckpoint (cartAt 1 0) = - 1
   \<and> laps (fold lapAccounting [0, 1, 2, 3, 0] (cartAt 1 0)) = 1
   \<and> laps (fold lapAccounting [0, 1, 2, 1, 0] (cartAt 1 0)) = 0"
proof -
  let ?p = "playerProps squareTrack" and ?c = "(cartAt 1 0)\<lparr>lastCheckpoint := 3\<rparr>"
  have ctl: "frameControls ?p noKeys ?c = Inr (noKeys, ?c)"
    by (simp add: frameControls_def playerProps_def)
  have tent: "frameTentative noKeys (1 / 60) ?c = \<lparr>vec_x = 1, vec_y = 2.5, vec_z = 0\<rparr>"
    by (simp add: frameTentative_def frameRotation_def frameVelocity_def
        frameAngularVelocity_def noKeys_def cartAt_def Let_def)
  have valid: "isPositionValid (trackPoints ?p) (vec_x (frameTentative noKeys (1 / 60) ?c))
        (vec_z (frameTentative noKeys (1 / 60) ?c)) = Inr True"
    unfolding tent by (simp add: playerProps_def track_eval)
  have cp: "currentCheckpoint (trackPoints ?p) (currentTrackIndex ?c) = 0"
    by (simp add: currentCheckpoint_def playerProps_def cartAt_def squareTrack_def)
  have hyp: "groupRefCurrent ?p \<and> \<not> isPaused ?c \<and> \<not> isStunned ?c
     \<and> frameControls ?p noKeys ?c = Inr (noKeys, ?c)
     \<and> isPositionValid (trackPoints ?p) (vec_x (frameTentative noKeys (1 / 60) ?c))
           (vec_z (frameTentative noKeys (1 / 60) ?c)) = Inr True
     \<and> currentCheckpoint (trackPoints ?p) (currentTrackIndex ?c) \<noteq> lastCheckpoint ?c"
    using ctl valid cp by (simp add: playerProps_def cartAt_def)
  have l: "lastCheckpoint (cartAt 1 0) \<noteq> 3" by (simp add: cartAt_def)
  from lap_counting[of ?p ?c noKeys noKeys ?c "1 / 60" "[]" "cartAt 1 0"] hyp l
  have "(\<exists>c' m' notified. useFrame ?p noKeys (1 / 60) [] ?c = Inr (c', m', notified)
      \<and> laps c' = laps ?c + (if lastCheckpoint ?c = 3
            \<and> currentCheckpoint (trackPoints ?p) (currentTrackIndex ?c) = 0 then 1 else 0)
      \<and> lastCheckpoint c' = currentCheckpoint (trackPoints ?p) (currentTrackIndex ?c))
    \<and> laps (fold lapAccounting [0, 1, 2, 3, 0] (cartAt 1 0)) = laps (cartAt 1 0) + 1
    \<and> laps (fold lapAccounting [0, 1, 2, 1, 0] (cartAt 1 0)) = laps (cartAt 1 0)"
    by blast
  then have concl: "(\<exists>c' m' notified. useFrame ?p noKeys (1 / 60) [] ?c = Inr (c', m', notified)
      \<and> laps c' = 1 \<and> lastCheckpoint c' = 0)
    \<and> laps (fold lapAccounting [0, 1, 2, 3, 0] (cartAt 1 0)) = 1
    \<and> laps (fold lapAccounting [0, 1, 2, 1, 0] (cartAt 1 0)) = 0"
    unfolding cp by (simp add: cartAt_def)
  show ?thesis
    using hyp ctl valid cp concl by (simp add: cartAt_def)
qed

section \<open>Damage: ten hits in a row\<close>

lemma takeDamage_no_reset:
  "\<not> callsResetToStart c \<Longrightarrow>
   takeDamage p c = c\<lparr>hitPoints := hitPoints c - 1, isStunned := True, stunTimeLeft := 0.1,
                       velocity := 0, angularVelocity := 0, cartHits := cartHits c + 1\<rparr>"
  by (simp add: takeDamage_def Let_def)

lemma takeDamage_reset:
  "callsResetToStart c \<Longrightarrow>
   takeDamage p c = resetToStart p (c\<lparr>hitPoints := hitPoints c - 1, isStunned := True,
                       stunTimeLeft := 0.1, velocity := 0, angularVelocity := 0,
                       cartHits := cartHits c + 1\<rparr>)"
  by (simp add: takeDamage_def Let_def)

lemma takeDamage_cartHits: "cartHits (takeDamage p c) = cartHits c + 1"
  by (simp add: takeDamage_def Let_def resetToStart_def)

lemma takeDamage_iter_cartHits: "cartHits ((takeDamage p ^^ k) c) = cartHits c + k"
  by (induction k) (simp_all add: takeDamage_cartHits)

lemma takeDamage_hitPoints:
  "hitPoints (takeDamage p c) = (if hitPoints c \<le> 1 then 10 else hitPoints c - 1)"
  by (simp add: takeDamage_def Let_def resetToStart_def callsResetToStart_def)

lemma takeDamage_iter_hitPoints:
  "hitPoints c = 10 \<Longrightarrow> k \<le> 9 \<Longrightarrow> hitPoints ((takeDamage p ^^ k) c) = 10 - int k"
proof (induction k)
  case 0
  then show ?case by simp
next
  case (Suc k)
  then have "hitPoints ((takeDamage p ^^ k) c) = 10 - int k" by simp
  moreover from Suc.prems have "k < 9" by simp
  ultimately show ?case
    by (simp add: takeDamage_hitPoints)
qed

text \<open>
  C3. Ten consecutive calls of \<^verbatim>\<open>takeDamage\<close> on a cart with 10 hit points: none of the
  first nine calls \<^verbatim>\<open>resetToStart\<close>, and each of them takes one hit point, sets the stun
  timer to 0.1, zeroes both velocities and counts one cart hit; the tenth, and it alone,
  calls \<^verbatim>\<open>resetToStart\<close>, after which the cart has 10 hit points, stands at its start
  position with heading \<open>\<pi>/2\<close> and both velocities 0, is neither paused nor stunned with both
  timers 0, and has last checkpoint -1.
\<close>

theorem takeDamage_ten_times:
  assumes "hitPoints c = 10"
  shows "(\<forall>k<9. \<not> callsResetToStart ((takeDamage p ^^ k) c)
            \<and> (takeDamage p ^^ Suc k) c =
                ((takeDamage p ^^ k) c)
                  \<lparr>hitPoints := hitPoints ((takeDamage p ^^ k) c) - 1, isStunned := True,
                   stunTimeLeft := 0.1, velocity := 0, angularVelocity := 0,
                   cartHits := cartHits ((takeDamage p ^^ k) c) + 1\<rparr>
            \<and> hitPoints ((takeDamage p ^^ Suc k) c) = 9 - int k)
     \<and> callsResetToStart ((takeDamage p ^^ 9) c)
     \<and> length (filter callsResetToStart (map (\<lambda>k. (takeDamage p ^^ k) c) [0..<10])) = 1
     \<and> (takeDamage p ^^ 10) c =
          resetToStart p (((takeDamage p ^^ 9) c)\<lparr>hitPoints := 0, isStunned := True,
             stunTimeLeft := 0.1, velocity := 0, angularVelocity := 0,
             cartHits := cartHits c + 10\<rparr>)
     \<and> hitPoints ((takeDamage p ^^ 10) c) = 10
     \<and> position ((takeDamage p ^^ 10) c) = startPosition p
     \<and> rotation ((takeDamage p ^^ 10) c) = pi / 2
     \<and> velocity ((takeDamage p ^^ 10) c) = 0
     \<and> angularVelocity ((takeDamage p ^^ 10) c) = 0
     \<and> \<not> isPaused ((takeDamage p ^^ 10) c) \<and> pauseTimeLeft ((takeDamage p ^^ 10) c) = 0
     \<and> \<not> isStunned ((takeDamage p ^^ 10) c) \<and> stunTimeLeft ((takeDamage p ^^ 10) c) = 0
     \<and> lastCheckpoint ((takeDamage p ^^ 10) c) = - 1
     \<and> cartHits ((takeDamage p ^^ 10) c) = cartHits c + 10"
proof -
  have hp: "\<And>k. k \<le> 9 \<Longrightarrow> hitPoints ((takeDamage p ^^ k) c) = 10 - int k"
    using assms by (rule takeDamage_iter_hitPoints)
  have calls: "\<And>k. k \<le> 9 \<Longrightarrow> callsResetToStart ((takeDamage p ^^ k) c) \<longleftrightarrow> k = 9"
    using hp by (auto simp: callsResetToStart_def)
  have first: "\<forall>k<9. \<not> callsResetToStart ((takeDamage p ^^ k) c)
            \<and> (takeDamage p ^^ Suc k) c =
                ((takeDamage p ^^ k) c)
                  \<lparr>hitPoints := hitPoints ((takeDamage p ^^ k) c) - 1, isStunned := True,
                   stunTimeLeft := 0.1, velocity := 0, angularVelocity := 0,
                   cartHits := cartHits ((takeDamage p ^^ k) c) + 1\<rparr>
            \<and> hitPoints ((takeDamage p ^^ Suc k) c) = 9 - int k"
  proof (intro allI impI)
    fix k :: nat assume k: "k < 9"
    then have n: "\<not> callsResetToStart ((takeDamage p ^^ k) c)" using calls[of k] by simp
    from k have "hitPoints ((takeDamage p ^^ Suc k) c) = 10 - int (Suc k)"
      by (intro hp) simp
    with n show "\<not> callsResetToStart ((takeDamage p ^^ k) c)
            \<and> (takeDamage p ^^ Suc k) c =
                ((takeDamage p ^^ k) c)
                  \<lparr>hitPoints := hitPoints ((takeDamage p ^^ k) c) - 1, isStunned := True,
                   stunTimeLeft := 0.1, velocity := 0, angularVelocity := 0,
                   cartHits := cartHits ((takeDamage p ^^ k) c) + 1\<rparr>
            \<and> hitPoints ((takeDamage p ^^ Suc k) c) = 9 - int k"
      by (simp add: takeDamage_no_reset)
  qed
  have ninth: "callsResetToStart ((takeDamage p ^^ 9) c)" using calls[of 9] by simp
  have up: "[0..<10] = [0, 1, 2, 3, 4, 5, 6, 7, 8, 9::nat]"
    by (simp add: upt_rec)
  have once: "length (filter callsResetToStart (map (\<lambda>k. (takeDamage p ^^ k) c) [0..<10])) = 1"
    unfolding up using calls[of 0] calls[of 1] calls[of 2] calls[of 3] calls[of 4]
      calls[of 5] calls[of 6] calls[of 7] calls[of 8] calls[of 9]
    by simp
  have ten: "(takeDamage p ^^ 10) c = takeDamage p ((takeDamage p ^^ 9) c)"
    by (simp add: numeral_Bit0 numeral_Bit1 funpow_add)
  have last: "(takeDamage p ^^ 10) c =
          resetToStart p (((takeDamage p ^^ 9) c)\<lparr>hitPoints := 0, isStunned := True,
             stunTimeLeft := 0.1, velocity := 0, angularVelocity := 0,
             cartHits := cartHits c + 10\<rparr>)"
    unfolding ten using hp[of 9]
    by (simp add: takeDamage_reset[OF ninth] takeDamage_iter_cartHits add.commute)
  have fin: "hitPoints ((takeDamage p ^^ 10) c) = 10
     \<and> position ((takeDamage p ^^ 10) c) = startPosition p
     \<and> rotation ((takeDamage p ^^ 10) c) = pi / 2
     \<and> velocity ((takeDamage p ^^ 10) c) = 0
     \<and> angularVelocity ((takeDamage p ^^ 10) c) = 0
     \<and> \<not> isPaused ((takeDamage p ^^ 10) c) \<and> pauseTimeLeft ((takeDamage p ^^ 10) c) = 0
     \<and> \<not> isStunned ((takeDamage p ^^ 10) c) \<and> stunTimeLeft ((takeDamage p ^^ 10) c) = 0
     \<and> lastCheckpoint ((takeDamage p ^^ 10) c) = - 1
     \<and> cartHits ((takeDamage p ^^ 10) c) = cartHits c + 10"
    unfolding last by (simp add: resetToStart_def)
  from first ninth once last fin show ?thesis by blast
qed

text \<open>The cart \<open>ai1\<close> as created: the ninth call leaves 1 hit point, the tenth resets.\<close>

theorem takeDamage_ten_times_witness:
  "hitPoints (initialCart (ai1Props squareTrack)) = 10
   \<and> \<not> callsResetToStart ((takeDamage (ai1Props squareTrack) ^^ 8) (initialCart (ai1Props squareTrack)))
   \<and> hitPoints ((takeDamage (ai1Props squareTrack) ^^ Suc 8) (initialCart (ai1Props squareTrack))) = 1
   \<and> callsResetToStart ((takeDamage (ai1Props squareTrack) ^^ 9) (initialCart (ai1Props squareTrack)))
   \<and> hitPoints ((takeDamage (ai1Props squareTrack) ^^ 10) (initialCart (ai1Props squareTrack))) = 10
   \<and> position ((takeDamage (ai1Props squareTrack) ^^ 10) (initialCart (ai1Props squareTrack)))
        = \<lparr>vec_x = 45, vec_y = 1.0, vec_z = - 4.95\<rparr>
   \<and> lastCheckpoint ((takeDamage (ai1Props squareTrack) ^^ 10) (initialCart (ai1Props squareTrack))) = - 1
   \<and> cartHits ((takeDamage (ai1Props squareTrack) ^^ 10) (initialCart (ai1Props squareTrack))) = 10"
proof -
  let ?p = "ai1Props squareTrack"
  let ?c = "initialCart ?p"
  have h: "hitPoints ?c = 10"
    by (simp add: initialCart_def)
  have k: "(8::nat) < 9" by simp
  note T = takeDamage_ten_times[OF h, of ?p]
  from T have "\<forall>k<9. \<not> callsResetToStart ((takeDamage ?p ^^ k) ?c)
            \<and> (takeDamage ?p ^^ Suc k) ?c =
                ((takeDamage ?p ^^ k) ?c)
                  \<lparr>hitPoints := hitPoints ((takeDamage ?p ^^ k) ?c) - 1, isStunned := True,
                   stunTimeLeft := 0.1, velocity := 0, angularVelocity := 0,
                   cartHits := cartHits ((takeDamage ?p ^^ k) ?c) + 1\<rparr>
            \<and> hitPoints ((takeDamage ?p ^^ Suc k) ?c) = 9 - int k"
    by (rule conjunct1)
  then have eighth: "\<not> callsResetToStart ((takeDamage ?p ^^ 8) ?c)
       \<and> hitPoints ((takeDamage ?p ^^ Suc 8) ?c) = 9 - int 8"
    using k by blast
  from T have rest: "callsResetToStart ((takeDamage ?p ^^ 9) ?c)
     \<and> hitPoints ((takeDamage ?p ^^ 10) ?c) = 10
     \<and> position ((takeDamage ?p ^^ 10) ?c) = startPosition ?p
     \<and> lastCheckpoint ((takeDamage ?p ^^ 10) ?c) = - 1
     \<and> cartHits ((takeDamage ?p ^^ 10) ?c) = cartHits ?c + 10"
    by blast
  have sp: "startPosition ?p = \<lparr>vec_x = 45, vec_y = 1.0, vec_z = - 4.95\<rparr>"
    by (simp add: ai1Props_def)
  have ch: "cartHits ?c = 0" by (simp add: initialCart_def)
  from h eighth rest show ?thesis
    unfolding sp ch by simp
qed

section \<open>Wall recovery\<close>

text \<open>
  The closest-point loop: after the points before index \<open>i\<close>, the accumulator holds the
  first of the nearest points among them; so it does at the end.
\<close>

lemma closestScan_nearest:
  assumes "rest = drop i tp" "i \<le> length tp"
    and "i = 0 \<Longrightarrow> cd = None"
    and "0 < i \<Longrightarrow> ci < i \<and> cp = Some (tp ! ci) \<and> cd = Some (hdist (tp ! ci) x z)
           \<and> (\<forall>j<i. hdist (tp ! ci) x z \<le> hdist (tp ! j) x z)
           \<and> (\<forall>j<ci. hdist (tp ! ci) x z < hdist (tp ! j) x z)"
    and "tp \<noteq> []"
  shows "\<exists>k. closestScan x z rest i (cp, cd, ci) = (Some (tp ! k), Some (hdist (tp ! k) x z), k)
           \<and> k < length tp
           \<and> (\<forall>j<length tp. hdist (tp ! k) x z \<le> hdist (tp ! j) x z)
           \<and> (\<forall>j<k. hdist (tp ! k) x z < hdist (tp ! j) x z)"
  using assms
proof (induction rest arbitrary: i cp cd ci)
  case Nil
  then have i: "i = length tp" by simp
  with Nil have "0 < i" by simp
  with Nil.prems(4) i show ?case by auto
next
  case (Cons point rest)
  from Cons.prems(1) have lt: "i < length tp"
    by (metis drop_all leI list.distinct(1))
  from Cons.prems(1) lt have pt: "point = tp ! i" and rest: "rest = drop (Suc i) tp"
    by (metis Cons_nth_drop_Suc list.inject)+
  let ?d = "hdist point x z"
  show ?case
  proof (cases "belowInf ?d cd")
    case True
    have inv: "i < Suc i \<and> Some point = Some (tp ! i) \<and> Some ?d = Some (hdist (tp ! i) x z)
           \<and> (\<forall>j<Suc i. hdist (tp ! i) x z \<le> hdist (tp ! j) x z)
           \<and> (\<forall>j<i. hdist (tp ! i) x z < hdist (tp ! j) x z)"
    proof (cases "i = 0")
      case True
      then show ?thesis using pt by simp
    next
      case False
      with Cons.prems(4) have old: "ci < i" "cd = Some (hdist (tp ! ci) x z)"
        "\<forall>j<i. hdist (tp ! ci) x z \<le> hdist (tp ! j) x z" by auto
      from True old(2) have less: "hdist (tp ! i) x z < hdist (tp ! ci) x z"
        by (simp add: belowInf_def pt)
      have "\<forall>j<i. hdist (tp ! i) x z < hdist (tp ! j) x z"
        using less old(3) by fastforce
      then show ?thesis using pt by (auto simp: less_Suc_eq)
    qed
    have "\<exists>k. closestScan x z rest (Suc i) (Some point, Some ?d, i)
             = (Some (tp ! k), Some (hdist (tp ! k) x z), k)
           \<and> k < length tp
           \<and> (\<forall>j<length tp. hdist (tp ! k) x z \<le> hdist (tp ! j) x z)
           \<and> (\<forall>j<k. hdist (tp ! k) x z < hdist (tp ! j) x z)"
      using rest lt inv Cons.prems(5) by (intro Cons.IH) simp_all
    with True show ?thesis by (simp add: Let_def)
  next
    case False
    then obtain d0 where cd: "cd = Some d0" and ge: "d0 \<le> ?d"
      by (auto simp: belowInf_def split: option.splits)
    with Cons.prems(3) have ipos: "0 < i" by auto
    with Cons.prems(4) have old: "ci < i" "cp = Some (tp ! ci)" "cd = Some (hdist (tp ! ci) x z)"
        "\<forall>j<i. hdist (tp ! ci) x z \<le> hdist (tp ! j) x z"
        "\<forall>j<ci. hdist (tp ! ci) x z < hdist (tp ! j) x z" by auto
    from cd ge old(3) have "hdist (tp ! ci) x z \<le> hdist (tp ! i) x z" by (simp add: pt)
    with old have inv: "ci < Suc i \<and> cp = Some (tp ! ci) \<and> cd = Some (hdist (tp ! ci) x z)
           \<and> (\<forall>j<Suc i. hdist (tp ! ci) x z \<le> hdist (tp ! j) x z)
           \<and> (\<forall>j<ci. hdist (tp ! ci) x z < hdist (tp ! j) x z)"
      by (auto simp: less_Suc_eq)
    have "\<exists>k. closestScan x z rest (Suc i) (cp, cd, ci)
             = (Some (tp ! k), Some (hdist (tp ! k) x z), k)
           \<and> k < length tp
           \<and> (\<forall>j<length tp. hdist (tp ! k) x z \<le> hdist (tp ! j) x z)
           \<and> (\<forall>j<k. hdist (tp ! k) x z < hdist (tp ! j) x z)"
      using rest lt inv Cons.prems(5) by (intro Cons.IH) simp_all
    with False show ?thesis by (simp add: Let_def)
  qed
qed

lemma closestTrack_nearest:
  assumes "tp \<noteq> []"
  shows "\<exists>k. closestTrack tp x z = (Some (tp ! k), Some (hdist (tp ! k) x z), k)
           \<and> k < length tp
           \<and> (\<forall>j<length tp. hdist (tp ! k) x z \<le> hdist (tp ! j) x z)
           \<and> (\<forall>j<k. hdist (tp ! k) x z < hdist (tp ! j) x z)"
  unfolding closestTrack_def using assms
  by (intro closestScan_nearest) simp_all

lemma closestTrack_empty: "closestTrack [] x z = (None, None, 0)"
  by (simp add: closestTrack_def)

lemma isPositionValid_nonempty: "isPositionValid tp x z = Inr b \<Longrightarrow> tp \<noteq> []"
  by (auto simp: isPositionValid_def closestTrack_empty)


text \<open>
  C4. When the tentative position of a frame fails \<^verbatim>\<open>isPositionValid\<close>, the frame does what
  \<^verbatim>\<open>resetToTrackCenter\<close> does and nothing else. With \<open>k\<close> the index of the centerline point
  nearest the position the cart had before the frame (the lowest such index), the position
  becomes that point with \<open>y\<close> its \<^verbatim>\<open>getTrackHeightAt\<close> plus 0.5, the heading the \<open>atan2\<close> of
  the vector to the point at \<open>(k + 1) mod N\<close>, both velocities 0, the cart paused for 3.0
  seconds and the wall-hit counter one higher; the tracked index becomes \<open>k\<close>. Every other
  cell, the health among them, the position map and the set of notified carts stay as
  they were.
\<close>

theorem wall_recovery:
  assumes "groupRefCurrent p" "\<not> isPaused c" "\<not> isStunned c"
    and "frameControls p keys c = Inr (controls, c1)"
    and "isPositionValid (trackPoints p) (vec_x (frameTentative controls delta c))
           (vec_z (frameTentative controls delta c)) = Inr False"
  shows "\<exists>k c'. k < length (trackPoints p)
     \<and> (\<forall>j<length (trackPoints p).
            hdist (trackPoints p ! k) (vec_x (position c)) (vec_z (position c))
              \<le> hdist (trackPoints p ! j) (vec_x (position c)) (vec_z (position c)))
     \<and> (\<forall>j<k. hdist (trackPoints p ! k) (vec_x (position c)) (vec_z (position c))
              < hdist (trackPoints p ! j) (vec_x (position c)) (vec_z (position c)))
     \<and> useFrame p keys delta m c = Inr (c', m, [])
     \<and> c' = c\<lparr>position :=
                 \<lparr>vec_x = vec_x (trackPoints p ! k),
                  vec_y = getTrackHeightAt (trackPoints p) (vec_x (trackPoints p ! k))
                            (vec_z (trackPoints p ! k)) + 0.5,
                  vec_z = vec_z (trackPoints p ! k)\<rparr>,
               rotation :=
                 atan2 (vec_x (trackPoints p ! ((k + 1) mod length (trackPoints p)))
                          - vec_x (trackPoints p ! k))
                       (vec_z (trackPoints p ! ((k + 1) mod length (trackPoints p)))
                          - vec_z (trackPoints p ! k)),
               velocity := 0, angularVelocity := 0, currentTrackIndex := k,
               isPaused := True, pauseTimeLeft := 3.0, wallHits := wallHits c + 1\<rparr>
     \<and> hitPoints c' = hitPoints c"
proof -
  let ?tp = "trackPoints p"
  let ?x = "vec_x (position c)" and ?z = "vec_z (position c)"
  from assms(5) have ne: "?tp \<noteq> []" by (rule isPositionValid_nonempty)
  then obtain k where k: "closestTrack ?tp ?x ?z = (Some (?tp ! k), Some (hdist (?tp ! k) ?x ?z), k)"
    "k < length ?tp" "\<forall>j<length ?tp. hdist (?tp ! k) ?x ?z \<le> hdist (?tp ! j) ?x ?z"
    "\<forall>j<k. hdist (?tp ! k) ?x ?z < hdist (?tp ! j) ?x ?z"
    using closestTrack_nearest[of ?tp ?x ?z] by blast
  obtain i where c1: "c1 = c\<lparr>currentTrackIndex := i\<rparr>"
    using frameControls_state[OF assms(4)] by blast
  let ?c' = "c\<lparr>position :=
                 \<lparr>vec_x = vec_x (?tp ! k),
                  vec_y = getTrackHeightAt ?tp (vec_x (?tp ! k)) (vec_z (?tp ! k)) + 0.5,
                  vec_z = vec_z (?tp ! k)\<rparr>,
               rotation :=
                 atan2 (vec_x (?tp ! ((k + 1) mod length ?tp)) - vec_x (?tp ! k))
                       (vec_z (?tp ! ((k + 1) mod length ?tp)) - vec_z (?tp ! k)),
               velocity := 0, angularVelocity := 0, currentTrackIndex := k,
               isPaused := True, pauseTimeLeft := 3.0, wallHits := wallHits c + 1\<rparr>"
  have reset: "resetToTrackCenter p c1 = Inr ?c'"
    by (simp add: resetToTrackCenter_def c1 k(1) Let_def)
  have "useFrame p keys delta m c = Inr (?c', m, [])"
    by (simp add: useFrame_out_of_bounds[OF assms] reset)
  moreover have "hitPoints ?c' = hitPoints c" by simp
  ultimately show ?thesis using k(2-4) by blast
qed

text \<open>
  The player on the square track at \<open>(1, -5)\<close>, driving at 0.3 towards \<open>-z\<close> with no key
  pressed: the tentative position \<open>(1, -5.2688)\<close> is out of bounds, and the cart is put on
  point 0, heading along the first segment.
\<close>

theorem wall_recovery_witness:
  "groupRefCurrent (playerProps squareTrack)
   \<and> \<not> isPaused ((cartAt 1 (- 5))\<lparr>rotation := pi, velocity := 0.3\<rparr>)
   \<and> \<not> isStunned ((cartAt 1 (- 5))\<lparr>rotation := pi, velocity := 0.3\<rparr>)
   \<and> frameControls (playerProps squareTrack) noKeys ((cartAt 1 (- 5))\<lparr>rotation := pi, velocity := 0.3\<rparr>)
        = Inr (noKeys, (cartAt 1 (- 5))\<lparr>rotation := pi, velocity := 0.3\<rparr>)
   \<and> frameTentative noKeys (1 / 60) ((cartAt 1 (- 5))\<lparr>rotation := pi, velocity := 0.3\<rparr>)
        = \<lparr>vec_x = 1, vec_y = 2.5, vec_z = - 5.2688\<rparr>
   \<and> isPositionValid (trackPoints (playerProps squareTrack))
        (vec_x (frameTentative noKeys (1 / 60) ((cartAt 1 (- 5))\<lparr>rotation := pi, velocity := 0.3\<rparr>)))
        (vec_z (frameTentative noKeys (1 / 60) ((cartAt 1 (- 5))\<lparr>rotation := pi, velocity := 0.3\<rparr>)))
        = Inr False
   \<and> useFrame (playerProps squareTrack) noKeys (1 / 60) [] ((cartAt 1 (- 5))\<lparr>rotation := pi, velocity := 0.3\<rparr>)
        = Inr ((cartAt 0 0)\<lparr>isPaused := True, pauseTimeLeft := 3, wallHits := 1\<rparr>, [], [])"
proof -
  let ?p = "playerProps squareTrack" and ?c = "(cartAt 1 (- 5))\<lparr>rotation := pi, velocity := 0.3\<rparr>"
  have mounted: "groupRefCurrent ?p" by (simp add: playerProps_def)
  have np: "\<not> isPaused ?c" and ns: "\<not> isStunned ?c" by (simp_all add: cartAt_def)
  have ctl: "frameControls ?p noKeys ?c = Inr (noKeys, ?c)"
    by (simp add: frameControls_def playerProps_def)
  have tent: "frameTentative noKeys (1 / 60) ?c = \<lparr>vec_x = 1, vec_y = 2.5, vec_z = - 5.2688\<rparr>"
    by (simp add: frameTentative_def frameRotation_def frameVelocity_def
        frameAngularVelocity_def noKeys_def cartAt_def Let_def)
  have invalid: "isPositionValid (trackPoints ?p) (vec_x (frameTentative noKeys (1 / 60) ?c))
        (vec_z (frameTentative noKeys (1 / 60) ?c)) = Inr False"
    unfolding tent by (simp add: playerProps_def track_eval)
  have tp: "trackPoints ?p = squareTrack" by (simp add: playerProps_def)
  from wall_recovery[OF mounted np ns ctl invalid, of "[]"]
  obtain k c' where k: "k < length squareTrack"
     "\<forall>j<length squareTrack.
            hdist (squareTrack ! k) (vec_x (position ?c)) (vec_z (position ?c))
              \<le> hdist (squareTrack ! j) (vec_x (position ?c)) (vec_z (position ?c))"
     and run: "useFrame ?p noKeys (1 / 60) [] ?c = Inr (c', [], [])"
     and c': "c' = ?c\<lparr>position :=
                 \<lparr>vec_x = vec_x (squareTrack ! k),
                  vec_y = getTrackHeightAt squareTrack (vec_x (squareTrack ! k))
                            (vec_z (squareTrack ! k)) + 0.5,
                  vec_z = vec_z (squareTrack ! k)\<rparr>,
               rotation :=
                 atan2 (vec_x (squareTrack ! ((k + 1) mod length squareTrack))
                          - vec_x (squareTrack ! k))
                       (vec_z (squareTrack ! ((k + 1) mod length squareTrack))
                          - vec_z (squareTrack ! k)),
               velocity := 0, angularVelocity := 0, currentTrackIndex := k,
               isPaused := True, pauseTimeLeft := 3.0, wallHits := wallHits ?c + 1\<rparr>"
    unfolding tp by blast
  have k0: "k = 0"
  proof (rule ccontr)
    assume "k \<noteq> 0"
    with k(1) have "k = 1 \<or> k = 2 \<or> k = 3" by (auto simp: squareTrack_def)
    moreover have "0 < length squareTrack" by (simp add: squareTrack_def)
    with k(2) have "hdist (squareTrack ! k) (vec_x (position ?c)) (vec_z (position ?c))
              \<le> hdist (squareTrack ! 0) (vec_x (position ?c)) (vec_z (position ?c))"
      by blast
    ultimately show False
      by (auto simp: squareTrack_def cartAt_def hdist_def power2_eq_square)
  qed
  have "c' = (cartAt 0 0)\<lparr>isPaused := True, pauseTimeLeft := 3, wallHits := 1\<rparr>"
    unfolding c' k0
    by (simp add: cartAt_def squareTrack_def getTrackHeightAt_def belowInf_def Let_def
        hdist_cmp atan2_def)
  with run mounted np ns ctl tent invalid show ?thesis by simp
qed

section \<open>A frame that would hit another cart\<close>

text \<open>
  C5. A frame whose tentative position is within bounds but collides with another cart
  keeps the \<open>x\<close> and \<open>z\<close> of the previous frame, sets \<open>y\<close> to \<^verbatim>\<open>getTrackHeightAt\<close> of that
  position plus 0.5, and stores the linear velocity, the angular velocity and the heading
  computed in this frame.
\<close>

theorem cart_collision_keeps_position:
  assumes "groupRefCurrent p" "\<not> isPaused c" "\<not> isStunned c"
    and "frameControls p keys c = Inr (controls, c1)"
    and "isPositionValid (trackPoints p) (vec_x (frameTentative controls delta c))
           (vec_z (frameTentative controls delta c)) = Inr True"
    and "fst (checkCartCollisions p (frameTentative controls delta c) m)"
  shows "\<exists>c' m' notified. useFrame p keys delta m c = Inr (c', m', notified)
     \<and> vec_x (position c') = vec_x (position c)
     \<and> vec_z (position c') = vec_z (position c)
     \<and> vec_y (position c') =
          getTrackHeightAt (trackPoints p) (vec_x (position c)) (vec_z (position c)) + 0.5
     \<and> velocity c' = frameVelocity controls delta (velocity c)
     \<and> angularVelocity c' =
          frameAngularVelocity controls delta (frameVelocity controls delta (velocity c))
            (angularVelocity c)
     \<and> rotation c' = rotation c + angularVelocity c'
     \<and> m' = mapSet (cartId p) (position c') m"
proof -
  obtain i where c1: "c1 = c\<lparr>currentTrackIndex := i\<rparr>"
    using frameControls_state[OF assms(4)] by blast
  show ?thesis
    using assms(6)
    by (simp add: useFrame_within_bounds[OF assms(1-5)] Let_def c1 lapAccounting_def
        frameRotation_def)
qed

text \<open>
  The player on the square track at \<open>(1, 0)\<close>, rolling at 0.3 towards \<open>ai1\<close> at \<open>(2, 0)\<close>: the
  tentative position \<open>(1.2688, 0)\<close> is within 1.5 of \<open>ai1\<close>, the player stays at \<open>(1, 0)\<close> and
  keeps the new velocity 0.2688.
\<close>

theorem cart_collision_keeps_position_witness:
  "groupRefCurrent (playerProps squareTrack)
   \<and> \<not> isPaused ((cartAt 1 0)\<lparr>velocity := 0.3\<rparr>)
   \<and> \<not> isStunned ((cartAt 1 0)\<lparr>velocity := 0.3\<rparr>)
   \<and> frameControls (playerProps squareTrack) noKeys ((cartAt 1 0)\<lparr>velocity := 0.3\<rparr>)
        = Inr (noKeys, (cartAt 1 0)\<lparr>velocity := 0.3\<rparr>)
   \<and> frameTentative noKeys (1 / 60) ((cartAt 1 0)\<lparr>velocity := 0.3\<rparr>)
        = \<lparr>vec_x = 1.2688, vec_y = 2.5, vec_z = 0\<rparr>
   \<and> isPositionValid (trackPoints (playerProps squareTrack))
        (vec_x (frameTentative noKeys (1 / 60) ((cartAt 1 0)\<lparr>velocity := 0.3\<rparr>)))
        (vec_z (frameTentative noKeys (1 / 60) ((cartAt 1 0)\<lparr>velocity := 0.3\<rparr>))) = Inr True
   \<and> fst (checkCartCollisions (playerProps squareTrack)
             (frameTentative noKeys (1 / 60) ((cartAt 1 0)\<lparr>velocity := 0.3\<rparr>))
             [(''ai1'', \<lparr>vec_x = 2, vec_y = 2.5, vec_z = 0\<rparr>)])
   \<and> (\<exists>c' m' notified.
         useFrame (playerProps squareTrack) noKeys (1 / 60)
             [(''ai1'', \<lparr>vec_x = 2, vec_y = 2.5, vec_z = 0\<rparr>)] ((cartAt 1 0)\<lparr>velocity := 0.3\<rparr>)
           = Inr (c', m', notified)
         \<and> position c' = \<lparr>vec_x = 1, vec_y = 2.5, vec_z = 0\<rparr>
         \<and> velocity c' = 0.2688 \<and> angularVelocity c' = 0 \<and> rotation c' = pi / 2)"
proof -
  let ?p = "playerProps squareTrack" and ?c = "(cartAt 1 0)\<lparr>velocity := 0.3\<rparr>"
  let ?m = "[(''ai1'', \<lparr>vec_x = 2, vec_y = 2.5, vec_z = 0\<rparr>)]"
  have mounted: "groupRefCurrent ?p" by (simp add: playerProps_def)
  have np: "\<not> isPaused ?c" and ns: "\<not> isStunned ?c" by (simp_all add: cartAt_def)
  have ctl: "frameControls ?p noKeys ?c = Inr (noKeys, ?c)"
    by (simp add: frameControls_def playerProps_def)
  have vel: "frameVelocity noKeys (1 / 60) (velocity ?c) = 0.2688"
    by (simp add: frameVelocity_def noKeys_def cartAt_def)
  have ang: "frameAngularVelocity noKeys (1 / 60) 0.2688 (angularVelocity ?c) = 0"
    by (simp add: frameAngularVelocity_def noKeys_def cartAt_def)
  have tent: "frameTentative noKeys (1 / 60) ?c = \<lparr>vec_x = 1.2688, vec_y = 2.5, vec_z = 0\<rparr>"
    by (simp add: frameTentative_def frameRotation_def frameVelocity_def
        frameAngularVelocity_def noKeys_def cartAt_def Let_def)
  have valid: "isPositionValid (trackPoints ?p) (vec_x (frameTentative noKeys (1 / 60) ?c))
        (vec_z (frameTentative noKeys (1 / 60) ?c)) = Inr True"
    unfolding tent by (simp add: playerProps_def track_eval)
  have hit: "fst (checkCartCollisions ?p (frameTentative noKeys (1 / 60) ?c) ?m)"
    unfolding tent by (simp add: playerProps_def sqrt_times_less power2_eq_square)
  from cart_collision_keeps_position[OF mounted np ns ctl valid hit]
  obtain c' m' notified where run: "useFrame ?p noKeys (1 / 60) ?m ?c = Inr (c', m', notified)"
    and x: "vec_x (position c') = vec_x (position ?c)"
    and z: "vec_z (position c') = vec_z (position ?c)"
    and y: "vec_y (position c') =
          getTrackHeightAt (trackPoints ?p) (vec_x (position ?c)) (vec_z (position ?c)) + 0.5"
    and v: "velocity c' = frameVelocity noKeys (1 / 60) (velocity ?c)"
    and w: "angularVelocity c' = frameAngularVelocity noKeys (1 / 60)
              (frameVelocity noKeys (1 / 60) (velocity ?c)) (angularVelocity ?c)"
    and r: "rotation c' = rotation ?c + angularVelocity c'"
    by blast
  have pos: "position c' = \<lparr>vec_x = 1, vec_y = 2.5, vec_z = 0\<rparr>"
    using x y z
    by (cases "position c'") (simp add: cartAt_def playerProps_def track_eval)
  have "velocity c' = 0.2688 \<and> angularVelocity c' = 0 \<and> rotation c' = pi / 2"
    using v w r unfolding vel ang by (simp add: cartAt_def)
  with run pos mounted np ns ctl tent valid hit show ?thesis by blast
qed

section \<open>Normalising the angle difference\<close>

text \<open>
  The subtracting loop leaves a value that is at most \<open>\<pi>\<close> as it is and brings a larger one
  into \<open>(-\<pi>, \<pi>]\<close>; the adding loop leaves a value that is at least \<open>-\<pi>\<close> as it is and brings
  a smaller one into \<open>[-\<pi>, \<pi>)\<close>. Both move the value by a multiple of \<open>2\<pi>\<close>.
\<close>

lemma subLoop_range:
  "(a \<le> pi \<and> subLoop a = a) \<or> (pi < a \<and> - pi < subLoop a \<and> subLoop a \<le> pi)"
proof (induction a rule: subLoop.induct)
  case (1 a)
  show ?case
  proof (cases "a > pi")
    case True
    with 1 have "(a - 2 * pi \<le> pi \<and> subLoop (a - 2 * pi) = a - 2 * pi)
       \<or> (pi < a - 2 * pi \<and> - pi < subLoop (a - 2 * pi) \<and> subLoop (a - 2 * pi) \<le> pi)"
      by simp
    moreover have "subLoop a = subLoop (a - 2 * pi)"
      using True by (subst subLoop.simps) simp
    ultimately show ?thesis using True by auto
  next
    case False
    then show ?thesis by (subst subLoop.simps) simp
  qed
qed

lemma addLoop_range:
  "(- pi \<le> a \<and> addLoop a = a) \<or> (a < - pi \<and> - pi \<le> addLoop a \<and> addLoop a < pi)"
proof (induction a rule: addLoop.induct)
  case (1 a)
  show ?case
  proof (cases "a < - pi")
    case True
    with 1 have "(- pi \<le> a + 2 * pi \<and> addLoop (a + 2 * pi) = a + 2 * pi)
       \<or> (a + 2 * pi < - pi \<and> - pi \<le> addLoop (a + 2 * pi) \<and> addLoop (a + 2 * pi) < pi)"
      by simp
    moreover have "addLoop a = addLoop (a + 2 * pi)"
      using True by (subst addLoop.simps) simp
    ultimately show ?thesis using True by auto
  next
    case False
    then show ?thesis by (subst addLoop.simps) simp
  qed
qed

lemma subLoop_turns: "\<exists>k::nat. subLoop a = a - 2 * pi * real k"
proof (induction a rule: subLoop.induct)
  case (1 a)
  show ?case
  proof (cases "a > pi")
    case True
    with 1 obtain k :: nat where "subLoop (a - 2 * pi) = a - 2 * pi - 2 * pi * real k" by auto
    moreover have "subLoop a = subLoop (a - 2 * pi)"
      using True by (subst subLoop.simps) simp
    ultimately have "subLoop a = a - 2 * pi * real (Suc k)" by (simp add: algebra_simps)
    then show ?thesis by blast
  next
    case False
    then have "subLoop a = a - 2 * pi * real (0::nat)" by (subst subLoop.simps) simp
    then show ?thesis by blast
  qed
qed

lemma addLoop_turns: "\<exists>k::nat. addLoop a = a + 2 * pi * real k"
proof (induction a rule: addLoop.induct)
  case (1 a)
  show ?case
  proof (cases "a < - pi")
    case True
    with 1 obtain k :: nat where "addLoop (a + 2 * pi) = a + 2 * pi + 2 * pi * real k" by auto
    moreover have "addLoop a = addLoop (a + 2 * pi)"
      using True by (subst addLoop.simps) simp
    ultimately have "addLoop a = a + 2 * pi * real (Suc k)" by (simp add: algebra_simps)
    then show ?thesis by blast
  next
    case False
    then have "addLoop a = a + 2 * pi * real (0::nat)" by (subst addLoop.simps) simp
    then show ?thesis by blast
  qed
qed

text \<open>
  C6, as amended. \<open>subLoop\<close> and \<open>addLoop\<close> are total functions (their termination is proved
  where they are defined), so the normalisation returns for every desired and current
  heading; the result lies in the closed interval \<open>[-\<pi>, \<pi>]\<close> and differs from the raw
  difference by a whole number of turns.
\<close>

theorem normalizeAngleDiff_closed_interval:
  "- pi \<le> normalizeAngleDiff targetDirection rot
   \<and> normalizeAngleDiff targetDirection rot \<le> pi
   \<and> (\<exists>k::int. normalizeAngleDiff targetDirection rot = targetDirection - rot + 2 * pi * real_of_int k)"
proof -
  let ?a = "targetDirection - rot"
  have s: "subLoop ?a \<le> pi" using subLoop_range[of ?a] by auto
  have lo: "- pi \<le> addLoop (subLoop ?a)" using addLoop_range[of "subLoop ?a"] by auto
  have hi: "addLoop (subLoop ?a) \<le> pi" using addLoop_range[of "subLoop ?a"] s by auto
  obtain k1 :: nat where k1: "subLoop ?a = ?a - 2 * pi * real k1" using subLoop_turns by blast
  obtain k2 :: nat where k2: "addLoop (subLoop ?a) = subLoop ?a + 2 * pi * real k2"
    using addLoop_turns by blast
  have "addLoop (subLoop ?a) = subLoop ?a + 2 * pi * real k2" by (rule k2)
  also have "\<dots> = ?a - 2 * pi * real k1 + 2 * pi * real k2" by (simp only: k1)
  also have "\<dots> = ?a + 2 * pi * real_of_int (int k2 - int k1)" by (simp add: algebra_simps)
  finally have "addLoop (subLoop ?a) = ?a + 2 * pi * real_of_int (int k2 - int k1)" .
  then show ?thesis unfolding normalizeAngleDiff_def using lo hi by blast
qed

text \<open>
  C6, as stated, fails at the lower endpoint: with desired heading 0 and current heading
  \<open>\<pi>\<close> the difference is \<open>-\<pi>\<close>, neither loop runs, and \<open>-\<pi>\<close> is not in \<open>(-\<pi>, \<pi>]\<close>.
\<close>

theorem normalizeAngleDiff_counterexample:
  "normalizeAngleDiff 0 pi = - pi
   \<and> \<not> (- pi < normalizeAngleDiff 0 pi \<and> normalizeAngleDiff 0 pi \<le> pi)"
proof -
  have "subLoop (- pi) = - pi" by (subst subLoop.simps) simp
  moreover have "addLoop (- pi) = - pi" by (subst addLoop.simps) simp
  ultimately have "normalizeAngleDiff 0 pi = - pi" by (simp add: normalizeAngleDiff_def)
  then show ?thesis by simp
qed

section \<open>AI steering: the target point\<close>

lemma lookahead_steps:
  "nat \<lfloor>lookaheadDistance Aggressive / 3\<rfloor> = 2"
  "nat \<lfloor>lookaheadDistance Normal / 3\<rfloor> = 3"
  "nat \<lfloor>lookaheadDistance Cautious / 3\<rfloor> = 4"
proof -
  have "\<lfloor>(8::real) / 3\<rfloor> = 2" by (simp add: floor_eq_iff)
  then show "nat \<lfloor>lookaheadDistance Aggressive / 3\<rfloor> = 2" by simp
  have "\<lfloor>(10::real) / 3\<rfloor> = 3" by (simp add: floor_eq_iff)
  then show "nat \<lfloor>lookaheadDistance Normal / 3\<rfloor> = 3" by simp
  show "nat \<lfloor>lookaheadDistance Cautious / 3\<rfloor> = 4" by simp
qed

text \<open>
  C8, as amended. In an AI steering step with the tracked index in range, the index moves
  on by one (mod \<open>N\<close>) when the cart is closer than 3 to the point at the tracked index and
  stays otherwise; in both cases the target is the point at the index the frame started
  with plus \<open>\<lfloor>lookahead / 3\<rfloor>\<close> (mod \<open>N\<close>), and the controls steer towards that point.
\<close>

theorem ai_retarget:
  assumes "currentTrackIndex c < length (trackPoints p)"
  shows "aiTarget p c =
       Inr (c\<lparr>currentTrackIndex :=
              (if hdist (trackPoints p ! currentTrackIndex c)
                    (vec_x (position c)) (vec_z (position c)) < 3
               then (currentTrackIndex c + 1) mod length (trackPoints p)
               else currentTrackIndex c)\<rparr>,
            trackPoints p ! ((currentTrackIndex c + nat \<lfloor>lookaheadDistance (aiStyle p) / 3\<rfloor>)
                              mod length (trackPoints p)))
     \<and> (\<not> isPlayer p \<longrightarrow>
          (\<exists>controls c1 targetPoint. getAIControls p c = Inr (controls, c1)
             \<and> aiTarget p c = Inr (c1, targetPoint)
             \<and> left controls =
                  (normalizeAngleDiff
                     (atan2 (vec_x targetPoint - vec_x (position c))
                            (vec_z targetPoint - vec_z (position c))) (rotation c)
                   > turnThreshold (aiStyle p))
             \<and> right controls =
                  (normalizeAngleDiff
                     (atan2 (vec_x targetPoint - vec_x (position c))
                            (vec_z targetPoint - vec_z (position c))) (rotation c)
                   < - turnThreshold (aiStyle p))
             \<and> forward controls = (velocity c < speedTarget (aiStyle p))
             \<and> \<not> backward controls))"
proof -
  have t: "aiTarget p c =
       Inr (c\<lparr>currentTrackIndex :=
              (if hdist (trackPoints p ! currentTrackIndex c)
                    (vec_x (position c)) (vec_z (position c)) < 3
               then (currentTrackIndex c + 1) mod length (trackPoints p)
               else currentTrackIndex c)\<rparr>,
            trackPoints p ! ((currentTrackIndex c + nat \<lfloor>lookaheadDistance (aiStyle p) / 3\<rfloor>)
                              mod length (trackPoints p)))"
    using assms by (simp add: aiTarget_def Let_def)
  show ?thesis
    by (intro conjI impI, rule t) (simp add: getAIControls_def t Let_def)
qed

text \<open>
  The cart \<open>ai1\<close> (aggressive, look-ahead 8, two points ahead) on the square track at
  \<open>(1, 0)\<close>, one unit from point 0: the index advances to 1 and the target is point 2.
\<close>

theorem ai_retarget_witness:
  "currentTrackIndex (cartAt 1 0) < length (trackPoints (ai1Props squareTrack))
   \<and> \<not> isPlayer (ai1Props squareTrack)
   \<and> aiTarget (ai1Props squareTrack) (cartAt 1 0) =
       Inr ((cartAt 1 0)\<lparr>currentTrackIndex := 1\<rparr>, \<lparr>vec_x = 10, vec_y = 2, vec_z = 10\<rparr>)
   \<and> (\<exists>controls. getAIControls (ai1Props squareTrack) (cartAt 1 0)
          = Inr (controls, (cartAt 1 0)\<lparr>currentTrackIndex := 1\<rparr>)
        \<and> forward controls \<and> \<not> backward controls)"
proof -
  let ?p = "ai1Props squareTrack" and ?c = "cartAt 1 0"
  have h: "currentTrackIndex ?c < length (trackPoints ?p)"
    by (simp add: cartAt_def ai1Props_def squareTrack_def)
  have ai: "\<not> isPlayer ?p" by (simp add: ai1Props_def)
  have near: "hdist (trackPoints ?p ! currentTrackIndex ?c)
                (vec_x (position ?c)) (vec_z (position ?c)) < 3"
    by (simp add: cartAt_def ai1Props_def squareTrack_def hdist_cmp)
  have step: "nat \<lfloor>lookaheadDistance (aiStyle ?p) / 3\<rfloor> = 2"
    using lookahead_steps(1) by (simp add: ai1Props_def)
  note T = ai_retarget[OF h]
  from T have "aiTarget ?p ?c =
       Inr (?c\<lparr>currentTrackIndex :=
              (if hdist (trackPoints ?p ! currentTrackIndex ?c)
                    (vec_x (position ?c)) (vec_z (position ?c)) < 3
               then (currentTrackIndex ?c + 1) mod length (trackPoints ?p)
               else currentTrackIndex ?c)\<rparr>,
            trackPoints ?p ! ((currentTrackIndex ?c + nat \<lfloor>lookaheadDistance (aiStyle ?p) / 3\<rfloor>)
                              mod length (trackPoints ?p)))"
    by (rule conjunct1)
  then have t: "aiTarget ?p ?c =
       Inr (?c\<lparr>currentTrackIndex := 1\<rparr>, \<lparr>vec_x = 10, vec_y = 2, vec_z = 10\<rparr>)"
    unfolding step using near by (simp add: cartAt_def ai1Props_def squareTrack_def)
  from T ai obtain controls c1 targetPoint where
    g: "getAIControls ?p ?c = Inr (controls, c1)" "aiTarget ?p ?c = Inr (c1, targetPoint)"
       "forward controls = (velocity ?c < speedTarget (aiStyle ?p))" "\<not> backward controls"
    by blast
  from g(2) t have c1: "c1 = ?c\<lparr>currentTrackIndex := 1\<rparr>" by simp
  from g(3) have f: "forward controls" by (simp add: cartAt_def ai1Props_def)
  from g(1) c1 f g(4) have "\<exists>controls. getAIControls ?p ?c
          = Inr (controls, ?c\<lparr>currentTrackIndex := 1\<rparr>)
        \<and> forward controls \<and> \<not> backward controls"
    by blast
  with h ai t show ?thesis by blast
qed

text \<open>
  C8, as stated, fails when the index advances: in the same step the claim's target would
  be the point at the advanced index 1 plus 2, point 3, while the code's target is point 2.
\<close>

theorem ai_retarget_counterexample:
  "hdist (trackPoints (ai1Props squareTrack) ! currentTrackIndex (cartAt 1 0)) 1 0 < 3
   \<and> fst (projr (aiTarget (ai1Props squareTrack) (cartAt 1 0)))
       = (cartAt 1 0)\<lparr>currentTrackIndex := 1\<rparr>
   \<and> snd (projr (aiTarget (ai1Props squareTrack) (cartAt 1 0))) = squareTrack ! 2
   \<and> snd (projr (aiTarget (ai1Props squareTrack) (cartAt 1 0)))
       \<noteq> squareTrack ! ((1 + nat \<lfloor>lookaheadDistance Aggressive / 3\<rfloor>) mod length squareTrack)"
proof -
  have step: "nat \<lfloor>lookaheadDistance Aggressive / 3\<rfloor> = 2" by (rule lookahead_steps(1))
  have t: "aiTarget (ai1Props squareTrack) (cartAt 1 0) =
       Inr ((cartAt 1 0)\<lparr>currentTrackIndex := 1\<rparr>, \<lparr>vec_x = 10, vec_y = 2, vec_z = 10\<rparr>)"
    by (simp add: aiTarget_def Let_def cartAt_def ai1Props_def squareTrack_def hdist_cmp step)
  show ?thesis
    unfolding t step
    by (simp add: cartAt_def ai1Props_def squareTrack_def hdist_cmp)
qed

section \<open>Coasting: no control pressed\<close>

text \<open>Without forward or backward, the velocity decays towards 0 and never crosses it.\<close>

lemma frameVelocity_idle:
  assumes "\<not> forward controls" "\<not> backward controls" "0 < delta"
  shows "(frameVelocity controls delta v = 0 \<or> sgn (frameVelocity controls delta v) = sgn v)
     \<and> \<bar>frameVelocity controls delta v\<bar> \<le> \<bar>v\<bar>
     \<and> (v \<noteq> 0 \<longrightarrow> \<bar>frameVelocity controls delta v\<bar> < \<bar>v\<bar>)"
proof (cases "v > 0")
  case True
  with assms have eq: "frameVelocity controls delta v = max 0 (v - 1.2 * delta) * 0.96"
    by (simp add: frameVelocity_def)
  show ?thesis
  proof (cases "v - 1.2 * delta \<le> 0")
    case True
    then have "frameVelocity controls delta v = 0" unfolding eq by (simp add: max_def)
    with \<open>v > 0\<close> show ?thesis by simp
  next
    case False
    then have e: "frameVelocity controls delta v = (v - 1.2 * delta) * 0.96"
      unfolding eq by (simp add: max_def)
    from False have pos: "0 < (v - 1.2 * delta) * 0.96" by simp
    have "(v - 1.2 * delta) * 0.96 < v" using assms(3) True by (simp add: field_simps)
    with pos True show ?thesis unfolding e by (simp add: sgn_if)
  qed
next
  case False
  with assms have eq: "frameVelocity controls delta v = min 0 (v + 1.2 * delta) * 0.96"
    by (simp add: frameVelocity_def)
  show ?thesis
  proof (cases "0 \<le> v + 1.2 * delta")
    case True
    then have "frameVelocity controls delta v = 0" unfolding eq by (simp add: min_def)
    with False show ?thesis by simp
  next
    case n: False
    then have e: "frameVelocity controls delta v = (v + 1.2 * delta) * 0.96"
      unfolding eq by (simp add: min_def)
    from n have neg: "(v + 1.2 * delta) * 0.96 < 0" by (simp add: field_simps)
    from n assms(3) have vneg: "v < 0" by (simp add: field_simps) 
    have "v < (v + 1.2 * delta) * 0.96" using assms(3) vneg by (simp add: field_simps)
    with neg vneg show ?thesis unfolding e by (simp add: sgn_if)
  qed
qed

text \<open>Without left or right, the angular velocity is multiplied by 0.9.\<close>

lemma frameAngularVelocity_idle:
  assumes "\<not> left controls" "\<not> right controls"
  shows "frameAngularVelocity controls delta nv w = w * 0.9
     \<and> (frameAngularVelocity controls delta nv w = 0
          \<or> sgn (frameAngularVelocity controls delta nv w) = sgn w)
     \<and> \<bar>frameAngularVelocity controls delta nv w\<bar> \<le> \<bar>w\<bar>
     \<and> (w \<noteq> 0 \<longrightarrow> \<bar>frameAngularVelocity controls delta nv w\<bar> < \<bar>w\<bar>)"
proof -
  have e: "frameAngularVelocity controls delta nv w = w * 0.9"
    using assms by (simp add: frameAngularVelocity_def Let_def)
  show ?thesis unfolding e by (simp add: sgn_if abs_mult field_simps)
qed


text \<open>On a non-empty track both track routines of the frame return.\<close>

lemma isPositionValid_returns: "tp \<noteq> [] \<Longrightarrow> \<exists>b. isPositionValid tp x z = Inr b"
  using closestTrack_nearest[of tp x z] by (auto simp: isPositionValid_def Let_def)

lemma resetToTrackCenter_returns:
  "trackPoints p \<noteq> [] \<Longrightarrow>
   \<exists>c2. resetToTrackCenter p c = Inr c2 \<and> velocity c2 = 0 \<and> angularVelocity c2 = 0"
  using closestTrack_nearest[of "trackPoints p" "vec_x (position c)" "vec_z (position c)"]
  by (auto simp: resetToTrackCenter_def Let_def)

text \<open>
  C9. In a frame that is neither paused nor stunned, with all four control flags false
  and \<open>dt > 0\<close>, the stored linear velocity is 0 or has the sign of the previous one and is
  not larger in magnitude (smaller if the previous one was not 0), and so is the stored
  angular velocity: neither crosses 0. This holds whether the frame ends normally or in
  the wall recovery, which stores 0 for both.
\<close>

theorem idle_frame_decay:
  assumes "groupRefCurrent p" "\<not> isPaused c" "\<not> isStunned c"
    and "frameControls p keys c = Inr (controls, c1)"
    and "\<not> forward controls \<and> \<not> backward controls \<and> \<not> left controls \<and> \<not> right controls"
    and "0 < delta" and "trackPoints p \<noteq> []"
  shows "\<exists>c' m' notified. useFrame p keys delta m c = Inr (c', m', notified)
     \<and> (velocity c' = 0 \<or> sgn (velocity c') = sgn (velocity c))
     \<and> \<bar>velocity c'\<bar> \<le> \<bar>velocity c\<bar>
     \<and> (velocity c \<noteq> 0 \<longrightarrow> \<bar>velocity c'\<bar> < \<bar>velocity c\<bar>)
     \<and> (angularVelocity c' = 0 \<or> sgn (angularVelocity c') = sgn (angularVelocity c))
     \<and> \<bar>angularVelocity c'\<bar> \<le> \<bar>angularVelocity c\<bar>
     \<and> (angularVelocity c \<noteq> 0 \<longrightarrow> \<bar>angularVelocity c'\<bar> < \<bar>angularVelocity c\<bar>)"
proof -
  let ?nv = "frameVelocity controls delta (velocity c)"
  let ?nw = "frameAngularVelocity controls delta ?nv (angularVelocity c)"
  let ?t = "frameTentative controls delta c"
  from assms(5,6) have v: "(?nv = 0 \<or> sgn ?nv = sgn (velocity c))
     \<and> \<bar>?nv\<bar> \<le> \<bar>velocity c\<bar> \<and> (velocity c \<noteq> 0 \<longrightarrow> \<bar>?nv\<bar> < \<bar>velocity c\<bar>)"
    by (intro frameVelocity_idle) simp_all
  from assms(5) have w: "(?nw = 0 \<or> sgn ?nw = sgn (angularVelocity c))
     \<and> \<bar>?nw\<bar> \<le> \<bar>angularVelocity c\<bar>
     \<and> (angularVelocity c \<noteq> 0 \<longrightarrow> \<bar>?nw\<bar> < \<bar>angularVelocity c\<bar>)"
    using frameAngularVelocity_idle[of controls delta ?nv "angularVelocity c"] by blast
  obtain i where c1: "c1 = c\<lparr>currentTrackIndex := i\<rparr>"
    using frameControls_state[OF assms(4)] by blast
  from assms(7) obtain b where b: "isPositionValid (trackPoints p) (vec_x ?t) (vec_z ?t) = Inr b"
    using isPositionValid_returns by blast
  show ?thesis
  proof (cases b)
    case True
    with b have valid: "isPositionValid (trackPoints p) (vec_x ?t) (vec_z ?t) = Inr True" by simp
    have "\<exists>c' m' notified. useFrame p keys delta m c = Inr (c', m', notified)
       \<and> velocity c' = ?nv \<and> angularVelocity c' = ?nw"
      by (simp add: useFrame_within_bounds[OF assms(1-4) valid] Let_def c1 lapAccounting_def)
    with v w show ?thesis by metis
  next
    case False
    with b have invalid: "isPositionValid (trackPoints p) (vec_x ?t) (vec_z ?t) = Inr False"
      by simp
    from assms(7) obtain c2 where "resetToTrackCenter p c1 = Inr c2" "velocity c2 = 0"
      "angularVelocity c2 = 0"
      using resetToTrackCenter_returns by blast
    then have "useFrame p keys delta m c = Inr (c2, m, []) \<and> velocity c2 = 0
        \<and> angularVelocity c2 = 0"
      by (simp add: useFrame_out_of_bounds[OF assms(1-4) invalid])
    then show ?thesis by auto
  qed
qed

text \<open>
  The player on the square track, rolling at 0.3 and turning at 0.05 per frame with no key
  pressed.
\<close>

theorem idle_frame_decay_witness:
  "groupRefCurrent (playerProps squareTrack)
   \<and> \<not> isPaused ((cartAt 1 0)\<lparr>velocity := 0.3, angularVelocity := 0.05\<rparr>)
   \<and> \<not> isStunned ((cartAt 1 0)\<lparr>velocity := 0.3, angularVelocity := 0.05\<rparr>)
   \<and> frameControls (playerProps squareTrack) noKeys
        ((cartAt 1 0)\<lparr>velocity := 0.3, angularVelocity := 0.05\<rparr>)
        = Inr (noKeys, (cartAt 1 0)\<lparr>velocity := 0.3, angularVelocity := 0.05\<rparr>)
   \<and> \<not> forward noKeys \<and> \<not> backward noKeys \<and> \<not> left noKeys \<and> \<not> right noKeys
   \<and> (0::real) < 1 / 60
   \<and> trackPoints (playerProps squareTrack) \<noteq> []
   \<and> (\<exists>c' m' notified.
         useFrame (playerProps squareTrack) noKeys (1 / 60) []
             ((cartAt 1 0)\<lparr>velocity := 0.3, angularVelocity := 0.05\<rparr>) = Inr (c', m', notified)
         \<and> (velocity c' = 0 \<or> sgn (velocity c') = 1) \<and> \<bar>velocity c'\<bar> < 0.3
         \<and> (angularVelocity c' = 0 \<or> sgn (angularVelocity c') = 1)
         \<and> \<bar>angularVelocity c'\<bar> < 0.05)"
proof -
  let ?p = "playerProps squareTrack"
  let ?c = "(cartAt 1 0)\<lparr>velocity := 0.3, angularVelocity := 0.05\<rparr>"
  have mounted: "groupRefCurrent ?p" by (simp add: playerProps_def)
  have np: "\<not> isPaused ?c" and ns: "\<not> isStunned ?c" by (simp_all add: cartAt_def)
  have ctl: "frameControls ?p noKeys ?c = Inr (noKeys, ?c)"
    by (simp add: frameControls_def playerProps_def)
  have idle: "\<not> forward noKeys \<and> \<not> backward noKeys \<and> \<not> left noKeys \<and> \<not> right noKeys"
    by (simp add: noKeys_def)
  have dt: "(0::real) < 1 / 60" by simp
  have ne: "trackPoints ?p \<noteq> []" by (simp add: playerProps_def squareTrack_def)
  have vel: "velocity ?c = 0.3" "angularVelocity ?c = 0.05" by simp_all
  from idle_frame_decay[OF mounted np ns ctl idle dt ne, of "[]"]
  obtain c' m' notified where run: "useFrame ?p noKeys (1 / 60) [] ?c = Inr (c', m', notified)"
    and v: "velocity c' = 0 \<or> sgn (velocity c') = sgn (velocity ?c)"
           "velocity ?c \<noteq> 0 \<longrightarrow> \<bar>velocity c'\<bar> < \<bar>velocity ?c\<bar>"
    and w: "angularVelocity c' = 0 \<or> sgn (angularVelocity c') = sgn (angularVelocity ?c)"
           "angularVelocity ?c \<noteq> 0 \<longrightarrow> \<bar>angularVelocity c'\<bar> < \<bar>angularVelocity ?c\<bar>"
    by blast
  from v w have "(velocity c' = 0 \<or> sgn (velocity c') = 1) \<and> \<bar>velocity c'\<bar> < 0.3
         \<and> (angularVelocity c' = 0 \<or> sgn (angularVelocity c') = 1)
         \<and> \<bar>angularVelocity c'\<bar> < 0.05"
    unfolding vel by simp
  with run mounted np ns ctl idle dt ne show ?thesis by blast
qed

section \<open>The tracked index of the player\<close>

text \<open>For the player the control routine is skipped: the keys are the controls.\<close>

lemma player_frameControls: "isPlayer p \<Longrightarrow> frameControls p keys c = Inr (keys, c)"
  by (simp add: frameControls_def)

text \<open>What a frame of the player does to the tracked index and the lap counter.\<close>

lemma player_frame:
  assumes "isPlayer p" "trackPoints p \<noteq> []"
  shows "\<exists>c' m' notified. useFrame p keys delta m c = Inr (c', m', notified)
     \<and> (wallViolation p keys delta c \<longrightarrow> resetToTrackCenter p c = Inr c')
     \<and> (\<not> wallViolation p keys delta c \<longrightarrow>
           currentTrackIndex c' = currentTrackIndex c
         \<and> laps c' = laps c +
              (if lastCheckpoint c' \<noteq> lastCheckpoint c \<and> lastCheckpoint c = 3
                  \<and> currentCheckpoint (trackPoints p) (currentTrackIndex c) = 0 then 1 else 0)
         \<and> (lastCheckpoint c' = lastCheckpoint c
              \<or> lastCheckpoint c' = currentCheckpoint (trackPoints p) (currentTrackIndex c)))"
proof -
  let ?t = "frameTentative keys delta c"
  note ctl = player_frameControls[OF assms(1), of keys c]
  from assms(2) obtain b where b: "isPositionValid (trackPoints p) (vec_x ?t) (vec_z ?t) = Inr b"
    using isPositionValid_returns by blast
  consider (idle) "\<not> groupRefCurrent p \<or> isPaused c \<or> isStunned c"
    | (wall) "groupRefCurrent p" "\<not> isPaused c" "\<not> isStunned c" "\<not> b"
    | (moving) "groupRefCurrent p" "\<not> isPaused c" "\<not> isStunned c" "b"
    by blast
  then show ?thesis
  proof cases
    case idle
    then have nw: "\<not> wallViolation p keys delta c" by (auto simp: wallViolation_def)
    from idle show ?thesis
      unfolding useFrame_def using nw by (auto simp: Let_def)
  next
    case wall
    with b have inv: "isPositionValid (trackPoints p) (vec_x ?t) (vec_z ?t) = Inr False" by simp
    with wall have w: "wallViolation p keys delta c" by (simp add: wallViolation_def ctl)
    from assms(2) obtain c2 where c2: "resetToTrackCenter p c = Inr c2"
      using resetToTrackCenter_returns by blast
    have "useFrame p keys delta m c = Inr (c2, m, [])"
      by (simp add: useFrame_out_of_bounds[OF wall(1-3) ctl inv] c2)
    with w c2 show ?thesis by simp
  next
    case moving
    with b have v: "isPositionValid (trackPoints p) (vec_x ?t) (vec_z ?t) = Inr True" by simp
    with moving have nw: "\<not> wallViolation p keys delta c" by (simp add: wallViolation_def ctl)
    show ?thesis
      using nw
      by (simp add: useFrame_within_bounds[OF moving(1-3) ctl v] Let_def lapAccounting_def)
  qed
qed


lemma resetToTrackCenter_index:
  assumes "resetToTrackCenter p c = Inr c'"
  shows "currentTrackIndex c' < length (trackPoints p)
     \<and> (\<forall>j<length (trackPoints p).
           hdist (trackPoints p ! currentTrackIndex c') (vec_x (position c)) (vec_z (position c))
             \<le> hdist (trackPoints p ! j) (vec_x (position c)) (vec_z (position c)))
     \<and> (\<forall>j<currentTrackIndex c'.
           hdist (trackPoints p ! currentTrackIndex c') (vec_x (position c)) (vec_z (position c))
             < hdist (trackPoints p ! j) (vec_x (position c)) (vec_z (position c)))"
proof -
  from assms have ne: "trackPoints p \<noteq> []"
    by (auto simp: resetToTrackCenter_def closestTrack_empty)
  from closestTrack_nearest[OF ne, of "vec_x (position c)" "vec_z (position c)"] assms
  show ?thesis
    by (auto simp: resetToTrackCenter_def Let_def)
qed

lemma takeDamage_index:
  "currentTrackIndex (takeDamage p c) = (if callsResetToStart c then 0 else currentTrackIndex c)"
  by (simp add: takeDamage_def Let_def resetToStart_def)

text \<open>
  One event of the player's history that calls neither reset keeps the tracked index; it
  keeps the lap counter too unless a lap was pending (recorded checkpoint 3, tracked index
  in checkpoint 0), and leaves no lap pending.
\<close>

lemma player_step:
  assumes "isPlayer p" "trackPoints p \<noteq> []"
  shows "\<exists>c'. step p c ev = Inr c'
     \<and> (\<not> resets p c ev \<longrightarrow>
           currentTrackIndex c' = currentTrackIndex c
         \<and> (\<not> (lastCheckpoint c = 3 \<and> currentCheckpoint (trackPoints p) (currentTrackIndex c) = 0)
              \<longrightarrow> laps c' = laps c
                \<and> \<not> (lastCheckpoint c' = 3
                       \<and> currentCheckpoint (trackPoints p) (currentTrackIndex c') = 0)))"
proof (cases ev)
  case (Frame keys delta m)
  from player_frame[OF assms, of keys delta m c]
  obtain c' m' notified where run: "useFrame p keys delta m c = Inr (c', m', notified)"
    and nw: "\<not> wallViolation p keys delta c \<longrightarrow>
           currentTrackIndex c' = currentTrackIndex c
         \<and> laps c' = laps c +
              (if lastCheckpoint c' \<noteq> lastCheckpoint c \<and> lastCheckpoint c = 3
                  \<and> currentCheckpoint (trackPoints p) (currentTrackIndex c) = 0 then 1 else 0)
         \<and> (lastCheckpoint c' = lastCheckpoint c
              \<or> lastCheckpoint c' = currentCheckpoint (trackPoints p) (currentTrackIndex c))"
    by blast
  have "step p c ev = Inr c'" by (simp add: Frame run)
  moreover have "\<not> resets p c ev \<longrightarrow>
           currentTrackIndex c' = currentTrackIndex c
         \<and> (\<not> (lastCheckpoint c = 3 \<and> currentCheckpoint (trackPoints p) (currentTrackIndex c) = 0)
              \<longrightarrow> laps c' = laps c
                \<and> \<not> (lastCheckpoint c' = 3
                       \<and> currentCheckpoint (trackPoints p) (currentTrackIndex c') = 0))"
    using nw by (auto simp: Frame)
  ultimately show ?thesis by blast
next
  case Hit
  show ?thesis
    by (auto simp: Hit takeDamage_no_reset)
qed

lemma player_run:
  assumes "isPlayer p" "trackPoints p \<noteq> []"
  shows "\<exists>c'. run p c evs = Inr c'
     \<and> (neverResets p c evs \<longrightarrow>
           currentTrackIndex c' = currentTrackIndex c
         \<and> (\<not> (lastCheckpoint c = 3 \<and> currentCheckpoint (trackPoints p) (currentTrackIndex c) = 0)
              \<longrightarrow> laps c' = laps c))"
proof (induction evs arbitrary: c)
  case Nil
  show ?case by simp
next
  case (Cons ev evs)
  from player_step[OF assms, of c ev] obtain c1 where s: "step p c ev = Inr c1"
    and keep: "\<not> resets p c ev \<longrightarrow>
           currentTrackIndex c1 = currentTrackIndex c
         \<and> (\<not> (lastCheckpoint c = 3 \<and> currentCheckpoint (trackPoints p) (currentTrackIndex c) = 0)
              \<longrightarrow> laps c1 = laps c
                \<and> \<not> (lastCheckpoint c1 = 3
                       \<and> currentCheckpoint (trackPoints p) (currentTrackIndex c1) = 0))"
    by blast
  from Cons.IH[of c1] obtain c' where r: "run p c1 evs = Inr c'"
    and rest: "neverResets p c1 evs \<longrightarrow>
           currentTrackIndex c' = currentTrackIndex c1
         \<and> (\<not> (lastCheckpoint c1 = 3 \<and> currentCheckpoint (trackPoints p) (currentTrackIndex c1) = 0)
              \<longrightarrow> laps c' = laps c1)"
    by blast
  have "run p c (ev # evs) = Inr c'" by (simp add: s r)
  moreover have "neverResets p c (ev # evs) \<longrightarrow>
           currentTrackIndex c' = currentTrackIndex c
         \<and> (\<not> (lastCheckpoint c = 3 \<and> currentCheckpoint (trackPoints p) (currentTrackIndex c) = 0)
              \<longrightarrow> laps c' = laps c)"
    using keep rest by (auto simp: s)
  ultimately show ?case by blast
qed

text \<open>
  C10. For the player on a non-empty track: a frame whose tentative position passes the
  boundary check keeps the tracked index; a frame changes the index only by the wall
  recovery, which sets it to the lowest index of a nearest centerline point; a hit changes
  it only when it takes the last hit point, to 0. Hence along any history of frames and
  hits in which neither reset is called the tracked index and its checkpoint stay as they
  were, and so does the lap counter (unless a lap was already pending at the start, which
  a fresh cart, with recorded checkpoint -1, has not).
\<close>

theorem player_index_only_by_resets:
  assumes "isPlayer p" "trackPoints p \<noteq> []"
  shows "(groupRefCurrent p \<and> \<not> isPaused c \<and> \<not> isStunned c
          \<and> isPositionValid (trackPoints p) (vec_x (frameTentative keys delta c))
                (vec_z (frameTentative keys delta c)) = Inr True
        \<longrightarrow> (\<exists>c' m' notified. useFrame p keys delta m c = Inr (c', m', notified)
              \<and> currentTrackIndex c' = currentTrackIndex c))
     \<and> (\<exists>c' m' notified. useFrame p keys delta m c = Inr (c', m', notified)
          \<and> (currentTrackIndex c' \<noteq> currentTrackIndex c \<longrightarrow>
                wallViolation p keys delta c \<and> resetToTrackCenter p c = Inr c'
              \<and> currentTrackIndex c' < length (trackPoints p)
              \<and> (\<forall>j<length (trackPoints p).
                    hdist (trackPoints p ! currentTrackIndex c') (vec_x (position c)) (vec_z (position c))
                      \<le> hdist (trackPoints p ! j) (vec_x (position c)) (vec_z (position c)))
              \<and> (\<forall>j<currentTrackIndex c'.
                    hdist (trackPoints p ! currentTrackIndex c') (vec_x (position c)) (vec_z (position c))
                      < hdist (trackPoints p ! j) (vec_x (position c)) (vec_z (position c)))))
     \<and> currentTrackIndex (takeDamage p c) = (if callsResetToStart c then 0 else currentTrackIndex c)
     \<and> (\<exists>c'. run p c evs = Inr c'
          \<and> (neverResets p c evs \<longrightarrow>
                currentTrackIndex c' = currentTrackIndex c
              \<and> currentCheckpoint (trackPoints p) (currentTrackIndex c')
                  = currentCheckpoint (trackPoints p) (currentTrackIndex c)
              \<and> (\<not> (lastCheckpoint c = 3
                     \<and> currentCheckpoint (trackPoints p) (currentTrackIndex c) = 0)
                   \<longrightarrow> laps c' = laps c)))
     \<and> (\<exists>c'. run p (initialCart p) evs = Inr c'
          \<and> (neverResets p (initialCart p) evs \<longrightarrow> currentTrackIndex c' = 0 \<and> laps c' = 0))"
proof -
  let ?t = "frameTentative keys delta c"
  from player_frame[OF assms, of keys delta m c]
  obtain c' m' notified where run: "useFrame p keys delta m c = Inr (c', m', notified)"
    and w: "wallViolation p keys delta c \<longrightarrow> resetToTrackCenter p c = Inr c'"
    and nw: "\<not> wallViolation p keys delta c \<longrightarrow> currentTrackIndex c' = currentTrackIndex c"
    by blast
  have first: "groupRefCurrent p \<and> \<not> isPaused c \<and> \<not> isStunned c
          \<and> isPositionValid (trackPoints p) (vec_x ?t) (vec_z ?t) = Inr True
        \<longrightarrow> (\<exists>c' m' notified. useFrame p keys delta m c = Inr (c', m', notified)
              \<and> currentTrackIndex c' = currentTrackIndex c)"
  proof
    assume a: "groupRefCurrent p \<and> \<not> isPaused c \<and> \<not> isStunned c
          \<and> isPositionValid (trackPoints p) (vec_x ?t) (vec_z ?t) = Inr True"
    then have "\<not> wallViolation p keys delta c"
      by (simp add: wallViolation_def player_frameControls[OF assms(1)])
    with run nw show "\<exists>c' m' notified. useFrame p keys delta m c = Inr (c', m', notified)
              \<and> currentTrackIndex c' = currentTrackIndex c"
      by blast
  qed
  have second: "\<exists>c' m' notified. useFrame p keys delta m c = Inr (c', m', notified)
          \<and> (currentTrackIndex c' \<noteq> currentTrackIndex c \<longrightarrow>
                wallViolation p keys delta c \<and> resetToTrackCenter p c = Inr c'
              \<and> currentTrackIndex c' < length (trackPoints p)
              \<and> (\<forall>j<length (trackPoints p).
                    hdist (trackPoints p ! currentTrackIndex c') (vec_x (position c)) (vec_z (position c))
                      \<le> hdist (trackPoints p ! j) (vec_x (position c)) (vec_z (position c)))
              \<and> (\<forall>j<currentTrackIndex c'.
                    hdist (trackPoints p ! currentTrackIndex c') (vec_x (position c)) (vec_z (position c))
                      < hdist (trackPoints p ! j) (vec_x (position c)) (vec_z (position c))))"
    using run w nw resetToTrackCenter_index[of p c c'] by blast
  from player_run[OF assms, of c evs] have fourth: "\<exists>c'. run p c evs = Inr c'
          \<and> (neverResets p c evs \<longrightarrow>
                currentTrackIndex c' = currentTrackIndex c
              \<and> currentCheckpoint (trackPoints p) (currentTrackIndex c')
                  = currentCheckpoint (trackPoints p) (currentTrackIndex c)
              \<and> (\<not> (lastCheckpoint c = 3
                     \<and> currentCheckpoint (trackPoints p) (currentTrackIndex c) = 0)
                   \<longrightarrow> laps c' = laps c))"
    by metis
  from player_run[OF assms, of "initialCart p" evs] have fifth:
    "\<exists>c'. run p (initialCart p) evs = Inr c'
          \<and> (neverResets p (initialCart p) evs \<longrightarrow> currentTrackIndex c' = 0 \<and> laps c' = 0)"
    by (auto simp: initialCart_def)
  from first second takeDamage_index[of p c] fourth fifth show ?thesis by blast
qed


text \<open>
  The player at rest on the square track at \<open>(1, 0)\<close> with tracked index 2: a frame, a hit
  and a frame under stun call no reset, and the index is still 2 and the lap counter 0.
\<close>

theorem player_index_only_by_resets_witness:
  "isPlayer (playerProps squareTrack)
   \<and> trackPoints (playerProps squareTrack) \<noteq> []
   \<and> groupRefCurrent (playerProps squareTrack)
   \<and> \<not> isPaused ((cartAt 1 0)\<lparr>currentTrackIndex := 2\<rparr>)
   \<and> \<not> isStunned ((cartAt 1 0)\<lparr>currentTrackIndex := 2\<rparr>)
   \<and> isPositionValid (trackPoints (playerProps squareTrack))
        (vec_x (frameTentative noKeys (1 / 60) ((cartAt 1 0)\<lparr>currentTrackIndex := 2\<rparr>)))
        (vec_z (frameTentative noKeys (1 / 60) ((cartAt 1 0)\<lparr>currentTrackIndex := 2\<rparr>))) = Inr True
   \<and> (\<exists>c' m' notified.
         useFrame (playerProps squareTrack) noKeys (1 / 60) [] ((cartAt 1 0)\<lparr>currentTrackIndex := 2\<rparr>)
           = Inr (c', m', notified)
         \<and> currentTrackIndex c' = 2)
   \<and> neverResets (playerProps squareTrack) ((cartAt 1 0)\<lparr>currentTrackIndex := 2\<rparr>)
        [Frame noKeys (1 / 60) [], Hit, Frame noKeys (1 / 60) []]
   \<and> (\<exists>c'. run (playerProps squareTrack) ((cartAt 1 0)\<lparr>currentTrackIndex := 2\<rparr>)
               [Frame noKeys (1 / 60) [], Hit, Frame noKeys (1 / 60) []] = Inr c'
         \<and> currentTrackIndex c' = 2 \<and> laps c' = 0)"
proof -
  let ?p = "playerProps squareTrack" and ?c = "(cartAt 1 0)\<lparr>currentTrackIndex := 2\<rparr>"
  let ?evs = "[Frame noKeys (1 / 60) [], Hit, Frame noKeys (1 / 60) []]"
  have pl: "isPlayer ?p" and ne: "trackPoints ?p \<noteq> []" and mounted: "groupRefCurrent ?p"
    by (simp_all add: playerProps_def squareTrack_def)
  have np: "\<not> isPaused ?c" and ns: "\<not> isStunned ?c" by (simp_all add: cartAt_def)
  have ctl: "frameControls ?p noKeys ?c = Inr (noKeys, ?c)"
    by (rule player_frameControls[OF pl])
  have tent: "frameTentative noKeys (1 / 60) ?c = \<lparr>vec_x = 1, vec_y = 2.5, vec_z = 0\<rparr>"
    by (simp add: frameTentative_def frameRotation_def frameVelocity_def
        frameAngularVelocity_def noKeys_def cartAt_def Let_def)
  have valid: "isPositionValid (trackPoints ?p) (vec_x (frameTentative noKeys (1 / 60) ?c))
        (vec_z (frameTentative noKeys (1 / 60) ?c)) = Inr True"
    unfolding tent by (simp add: playerProps_def track_eval)
  have nw: "\<not> wallViolation ?p noKeys (1 / 60) ?c"
    by (simp add: wallViolation_def ctl valid)
  note T = player_index_only_by_resets[OF pl ne, of ?c noKeys "1 / 60" "[]" ?evs]
  from T mounted np ns valid have frame:
    "\<exists>c' m' notified. useFrame ?p noKeys (1 / 60) [] ?c = Inr (c', m', notified)
       \<and> currentTrackIndex c' = currentTrackIndex ?c"
    by blast
  then obtain c1 m1 n1 where f1: "useFrame ?p noKeys (1 / 60) [] ?c = Inr (c1, m1, n1)" by blast
  have hp: "hitPoints c1 = 10"
    using f1[unfolded useFrame_within_bounds[OF mounted np ns ctl valid]]
    by (auto simp: Let_def lapAccounting_def cartAt_def)
  then have hit: "\<not> callsResetToStart c1" by (simp add: callsResetToStart_def)
  then have st: "isStunned (takeDamage ?p c1)" by (simp add: takeDamage_no_reset)
  have nw3: "\<not> wallViolation ?p noKeys (1 / 60) (takeDamage ?p c1)"
    using st by (simp add: wallViolation_def)
  have never: "neverResets ?p ?c ?evs"
    using nw hit nw3 by (simp add: f1 split: sum.split)
  from T obtain c' where r: "run ?p ?c ?evs = Inr c'"
    and keep: "neverResets ?p ?c ?evs \<longrightarrow>
                currentTrackIndex c' = currentTrackIndex ?c
              \<and> currentCheckpoint (trackPoints ?p) (currentTrackIndex c')
                  = currentCheckpoint (trackPoints ?p) (currentTrackIndex ?c)
              \<and> (\<not> (lastCheckpoint ?c = 3
                     \<and> currentCheckpoint (trackPoints ?p) (currentTrackIndex ?c) = 0)
                   \<longrightarrow> laps c' = laps ?c)"
    by blast
  from keep never have "currentTrackIndex c' = 2 \<and> laps c' = 0"
    by (simp add: cartAt_def)
  with r have last: "\<exists>c'. run ?p ?c ?evs = Inr c' \<and> currentTrackIndex c' = 2 \<and> laps c' = 0"
    by blast
  from frame have "\<exists>c' m' notified. useFrame ?p noKeys (1 / 60) [] ?c = Inr (c', m', notified)
       \<and> currentTrackIndex c' = 2"
    by simp
  with pl ne mounted np ns valid never last show ?thesis by blast
qed

section \<open>Accelerating from rest on the track\<close>


















end
